theory Spec2Isabelle
  imports Complex_Main
begin

section \<open>Owon SCPI instrument control: the measurement sequencers\<close>

text \<open>
  A shallow embedding of the acquisition logic of \<^verbatim>\<open>bode_core.py\<close> (the Bode sweep) and
  \<^verbatim>\<open>spectrum_core.py\<close> (the spectrum analysis). Exceptions are values of the type
  \<open>exc\<close>; a Python \<^verbatim>\<open>None\<close> is the \<open>None\<close> of an option type.

  Where a comparison of floats decides which branch the code takes (the choice of the
  timebase), the floats are IEEE binary64 values with the rounding of every operation written
  out. The measured amplitudes, the means, the magnitude, the phase and the spectrum are read
  as real numbers: there the statements are about the exact arithmetic the code writes down,
  and rounding, infinities and NaN are outside the model.
\<close>

datatype exc = KeyboardInterrupt | ValueError | ZeroDivisionError | KeyError | ConnectionError

subsection \<open>Double-precision arithmetic\<close>

text \<open>
  Rounding to the nearest integer, ties to the even one.
\<close>

definition round_even :: "real \<Rightarrow> int" where
  "round_even x =
     (let f = \<lfloor>x\<rfloor>
      in if x - of_int f < 1 / 2 then f
         else if x - of_int f > 1 / 2 then f + 1
         else if even f then f else f + 1)"

text \<open>
  The binary64 value nearest to a real number, ties to even: 53 significant bits for a
  normal number, multiples of \<open>2^-1074\<close> below \<open>2^-1022\<close>. The exponent is not bounded
  above here; \<open>fl\<close> adds the overflow to an infinity.
\<close>

definition nearest :: "real \<Rightarrow> real" where
  "nearest x =
     (if x = 0 then 0
      else
        let e = max \<lfloor>log 2 \<bar>x\<bar>\<rfloor> (- 1022);
            q = 2 powr (of_int e - 52)
        in of_int (round_even (x / q)) * q)"

text \<open>
  A Python float that is not a NaN, and the rounding of an exact result to a float. No
  computation below yields a NaN.
\<close>

datatype pyfloat = Finite real | PosInf | NegInf

definition fl :: "real \<Rightarrow> pyfloat" where
  "fl x =
     (let r = nearest x
      in if r \<ge> 2 ^ 1024 then PosInf
         else if r \<le> - (2 ^ 1024) then NegInf
         else Finite r)"

text \<open>
  \<^verbatim>\<open>x * c\<close> and \<^verbatim>\<open>x / c\<close> for a positive finite constant \<open>c\<close>, \<^verbatim>\<open>1.0 / x\<close> (which
  raises \<^verbatim>\<open>ZeroDivisionError\<close> on a zero), and \<^verbatim>\<open>t >= x\<close> for a finite \<open>t\<close>.
\<close>

definition py_mul :: "pyfloat \<Rightarrow> real \<Rightarrow> pyfloat" where
  "py_mul x c = (case x of Finite a \<Rightarrow> fl (a * c) | PosInf \<Rightarrow> PosInf | NegInf \<Rightarrow> NegInf)"

definition py_div :: "pyfloat \<Rightarrow> real \<Rightarrow> pyfloat" where
  "py_div x c = (case x of Finite a \<Rightarrow> fl (a / c) | PosInf \<Rightarrow> PosInf | NegInf \<Rightarrow> NegInf)"

definition py_recip :: "pyfloat \<Rightarrow> exc + pyfloat" where
  "py_recip x =
     (case x of
        Finite a \<Rightarrow> if a = 0 then Inl ZeroDivisionError else Inr (fl (1 / a))
      | PosInf \<Rightarrow> Inr (Finite 0)
      | NegInf \<Rightarrow> Inr (Finite 0))"

definition py_ge :: "real \<Rightarrow> pyfloat \<Rightarrow> bool" where
  "py_ge t x = (case x of Finite a \<Rightarrow> t \<ge> a | PosInf \<Rightarrow> False | NegInf \<Rightarrow> True)"

subsection \<open>Timebase selection (\<^verbatim>\<open>get_optimal_timebase\<close>)\<close>

text \<open>
  \<^verbatim>\<open>VDS_TIMEBASE_MAP\<close> is a dictionary from seconds per division to the SCPI string; it is
  kept as an association list in the order of the source. A key is the float that the
  literal of the source denotes (\<^verbatim>\<open>5e-9\<close> is \<open>nearest (5 / 10^9)\<close>). \<^verbatim>\<open>VALID_TIMEBASES\<close>
  is \<^verbatim>\<open>sorted(VDS_TIMEBASE_MAP.keys())\<close>.
\<close>

definition VDS_TIMEBASE_MAP :: "(real \<times> string) list" where
  "VDS_TIMEBASE_MAP =
    [(nearest (5 / 10^9), ''5ns''), (nearest (10 / 10^9), ''10ns''),
     (nearest (20 / 10^9), ''20ns''), (nearest (50 / 10^9), ''50ns''),
     (nearest (100 / 10^9), ''100ns''), (nearest (200 / 10^9), ''200ns''),
     (nearest (500 / 10^9), ''500ns''),
     (nearest (1 / 10^6), ''1us''), (nearest (2 / 10^6), ''2us''),
     (nearest (5 / 10^6), ''5us''),
     (nearest (10 / 10^6), ''10us''), (nearest (20 / 10^6), ''20us''),
     (nearest (50 / 10^6), ''50us''),
     (nearest (100 / 10^6), ''100us''), (nearest (200 / 10^6), ''200us''),
     (nearest (500 / 10^6), ''500us''),
     (nearest (1 / 10^3), ''1ms''), (nearest (2 / 10^3), ''2ms''),
     (nearest (5 / 10^3), ''5ms''),
     (nearest (10 / 10^3), ''10ms''), (nearest (20 / 10^3), ''20ms''),
     (nearest (50 / 10^3), ''50ms''),
     (nearest (100 / 10^3), ''100ms''), (nearest (200 / 10^3), ''200ms''),
     (nearest (500 / 10^3), ''500ms''),
     (nearest 1, ''1s''), (nearest 2, ''2s''), (nearest 5, ''5s''),
     (nearest 10, ''10s''), (nearest 20, ''20s''), (nearest 50, ''50s''),
     (nearest 100, ''100s'')]"

definition VALID_TIMEBASES :: "real list" where
  "VALID_TIMEBASES = sort (map fst VDS_TIMEBASE_MAP)"

text \<open>\<^verbatim>\<open>VDS_TIMEBASE_MAP[k]\<close>: a missing key raises \<^verbatim>\<open>KeyError\<close>.\<close>

definition dict_get :: "(real \<times> string) list \<Rightarrow> real \<Rightarrow> exc + string" where
  "dict_get m k = (case map_of m k of None \<Rightarrow> Inl KeyError | Some v \<Rightarrow> Inr v)"

text \<open>
  The \<^verbatim>\<open>for t_base_sec in VALID_TIMEBASES\<close> loop with its early return: the first entry
  that is at least the ideal value, \<open>None\<close> when the loop runs to its end.
\<close>

fun first_fit :: "pyfloat \<Rightarrow> real list \<Rightarrow> real option" where
  "first_fit ideal [] = None"
| "first_fit ideal (t # ts) = (if py_ge t ideal then Some t else first_fit ideal ts)"

text \<open>
  The frequency is the value of the float the caller passes. \<^verbatim>\<open>period = 1.0 / freq\<close> and
  \<^verbatim>\<open>ideal_time_per_div = (period * 2.0) / 10.0\<close> round after every operation.
\<close>

definition get_optimal_timebase :: "real \<Rightarrow> exc + (string \<times> real)" where
  "get_optimal_timebase freq =
    (if freq \<le> 0 then Inr (''1s'', 1)
     else
       (case py_recip (Finite freq) of
          Inl e \<Rightarrow> Inl e
        | Inr period \<Rightarrow>
           let ideal_time_per_div = py_div (py_mul period 2) 10
           in (case first_fit ideal_time_per_div VALID_TIMEBASES of
                 Some t_base_sec \<Rightarrow>
                   (case dict_get VDS_TIMEBASE_MAP t_base_sec of
                      Inl e \<Rightarrow> Inl e
                    | Inr s \<Rightarrow> Inr (s, t_base_sec))
               | None \<Rightarrow>
                   let t_base_sec = last VALID_TIMEBASES
                   in (case dict_get VDS_TIMEBASE_MAP t_base_sec of
                         Inl e \<Rightarrow> Inl e
                       | Inr s \<Rightarrow> Inr (s, t_base_sec)))))"

text \<open>
  The value the code computes for \<^verbatim>\<open>ideal_time_per_div\<close> at a positive frequency.
\<close>

definition computed_ideal :: "real \<Rightarrow> pyfloat" where
  "computed_ideal freq = py_div (py_mul (fl (1 / freq)) 2) 10"

subsection \<open>Magnitude and phase of one sweep point (in \<^verbatim>\<open>run_full_experiment\<close>)\<close>

text \<open>
  \<^verbatim>\<open>math.log10\<close> raises \<^verbatim>\<open>ValueError\<close> on an argument that is not positive; float
  division raises \<^verbatim>\<open>ZeroDivisionError\<close> on a zero divisor.
\<close>

definition math_log10 :: "real \<Rightarrow> exc + real" where
  "math_log10 x = (if x > 0 then Inr (log 10 x) else Inl ValueError)"

definition py_truediv :: "real \<Rightarrow> real \<Rightarrow> exc + real" where
  "py_truediv a b = (if b = 0 then Inl ZeroDivisionError else Inr (a / b))"

text \<open>
  Python's \<^verbatim>\<open>x % y\<close> on floats, for a positive divisor: the remainder of the floored
  division, in \<open>[0, y)\<close>.
\<close>

definition py_mod :: "real \<Rightarrow> real \<Rightarrow> real" where
  "py_mod x y = x - y * of_int \<lfloor>x / y\<rfloor>"

text \<open>
  \<^verbatim>\<open>if vpp1 < 1e-9: vpp1 = 1e-9\<close> followed by
  \<^verbatim>\<open>magnitude_db = 20 * math.log10(vpp2 / vpp1)\<close>.
\<close>

definition magnitude_db :: "real \<Rightarrow> real \<Rightarrow> exc + real" where
  "magnitude_db vpp1 vpp2 =
    (let vpp1 = (if vpp1 < 1 / 10^9 then 1 / 10^9 else vpp1)
     in case py_truediv vpp2 vpp1 of
          Inl e \<Rightarrow> Inl e
        | Inr q \<Rightarrow> (case math_log10 q of Inl e \<Rightarrow> Inl e | Inr l \<Rightarrow> Inr (20 * l)))"

text \<open>
  \<^verbatim>\<open>phase_deg = (-delay * freq * 360.0) % 360.0\<close> followed by
  \<^verbatim>\<open>if phase_deg > 180.0: phase_deg -= 360.0\<close>.
\<close>

definition phase_deg :: "real \<Rightarrow> real \<Rightarrow> real" where
  "phase_deg delay freq =
    (let p = py_mod (- delay * freq * 360) 360
     in if p > 180 then p - 360 else p)"

subsection \<open>The averaging sampler (\<^verbatim>\<open>get_measurement_avg_auto\<close>)\<close>








subsection \<open>The polling reader (\<^verbatim>\<open>read_measurement_with_polling\<close>)\<close>







subsection \<open>The sweep configuration and the frequency list (\<^verbatim>\<open>run_full_experiment\<close>)\<close>

text \<open>The keys of the configuration dictionary that the sweep reads.\<close>

record config =
  f_start :: real
  f_stop :: real
  num_points :: int
  scale :: string
  num_averages :: int
  gen_amplitude_vpp :: real

text \<open>
  \<^verbatim>\<open>numpy.linspace(start, stop, num)\<close> with its default \<^verbatim>\<open>endpoint=True\<close>: a negative
  \<^verbatim>\<open>num\<close> raises \<^verbatim>\<open>ValueError\<close>; otherwise the \<open>i\<close>-th sample is
  \<open>start + i * step\<close> with \<open>step = (stop - start) / (num - 1)\<close>, and for \<open>num > 1\<close> the last
  sample is overwritten with \<open>stop\<close>. For \<open>num = 1\<close> the only sample is \<open>start\<close>.
  \<^verbatim>\<open>numpy.logspace\<close> raises 10 to these samples.
\<close>

definition np_linspace :: "real \<Rightarrow> real \<Rightarrow> int \<Rightarrow> exc + real list" where
  "np_linspace start stop num =
     (if num < 0 then Inl ValueError
      else if num \<le> 1 then Inr (map (\<lambda>i. start) [0..<nat num])
      else Inr (map (\<lambda>i. start + real i * ((stop - start) / real (nat num - 1)))
                  [0..<nat num - 1] @ [stop]))"

definition np_logspace :: "real \<Rightarrow> real \<Rightarrow> int \<Rightarrow> exc + real list" where
  "np_logspace start stop num =
     (case np_linspace start stop num of
        Inl e \<Rightarrow> Inl e
      | Inr ys \<Rightarrow> Inr (map (\<lambda>y. 10 powr y) ys))"

text \<open>Step 2 of \<^verbatim>\<open>run_full_experiment\<close>: the list of frequencies of the sweep.\<close>

definition freq_list :: "config \<Rightarrow> exc + real list" where
  "freq_list cfg =
     (if scale cfg = ''log'' then
        (case math_log10 (f_start cfg) of
           Inl e \<Rightarrow> Inl e
         | Inr a \<Rightarrow>
             (case math_log10 (f_stop cfg) of
                Inl e \<Rightarrow> Inl e
              | Inr b \<Rightarrow> np_logspace a b (num_points cfg)))
      else np_linspace (f_start cfg) (f_stop cfg) (num_points cfg))"

subsection \<open>Commands sent to the instruments\<close>

text \<open>
  The set commands that the two sequencers send, one constructor for each driver method
  (\<^verbatim>\<open>scope.set_run()\<close>, \<^verbatim>\<open>scope.set_stop()\<close>, \<^verbatim>\<open>scope.timebase.set_scale(s)\<close>,
  \<^verbatim>\<open>scope.acquire.set_type(s)\<close>, \<^verbatim>\<open>scope.trigger.set_mode(s)\<close>,
  \<^verbatim>\<open>scope.trigger.single.edge.set_source(s)\<close>, the channel methods with the channel number
  first, \<^verbatim>\<open>gen.source1.function.set_shape(s)\<close>, \<^verbatim>\<open>gen.source1.voltage.set_amplitude\<close> with
  the amplitude in Vpp, \<^verbatim>\<open>gen.output1.set_impedance(s)\<close>, \<^verbatim>\<open>gen.source1.voltage.set_offset(s)\<close>,
  \<^verbatim>\<open>gen.source1.frequency.set_fixed\<close> with the frequency in Hz, \<^verbatim>\<open>gen.output1.set_state(s)\<close>).
  A run of a sequencer is observed through the list of the commands that reached the
  instruments, oldest first.
\<close>

datatype command =
    ScopeRun
  | ScopeStop
  | ScopeTimebaseScale string
  | ScopeAcquireType string
  | ScopeTriggerMode string
  | ScopeTriggerSource string
  | ScopeChannelDisplay nat bool
  | ScopeChannelCoupling nat string
  | ScopeChannelProbe nat string
  | ScopeChannelOffset nat int
  | ScopeChannelScale nat int
  | GenShape string
  | GenAmplitude real
  | GenImpedance string
  | GenOffset string
  | GenFrequencyFixed real
  | GenOutputState string

subsection \<open>The spectrum analysis (\<^verbatim>\<open>run_spectrum_analysis\<close>)\<close>

text \<open>
  The keys of the configuration dictionary that the analysis reads (\<open>sp_num_averages\<close> is
  the key \<^verbatim>\<open>num_averages\<close> of \<^verbatim>\<open>spectrum_core.py\<close>).
\<close>

record spectrum_config =
  resolution_hz :: real
  sp_num_averages :: int
  channel :: int
  window :: string

text \<open>The number of samples of one acquisition.\<close>

definition N :: nat where
  "N = 500"

text \<open>
  \<^verbatim>\<open>get_best_timebase\<close>: the same table and the same loop as in the Bode sweep, on the
  float value of \<^verbatim>\<open>1.0 / (target_resolution_hz * 10.0)\<close>.
\<close>

definition get_best_timebase :: "real \<Rightarrow> exc + (string \<times> real)" where
  "get_best_timebase target_resolution_hz =
    (case py_recip (py_mul (Finite target_resolution_hz) 10) of
       Inl e \<Rightarrow> Inl e
     | Inr ideal_time_per_div \<Rightarrow>
        (case first_fit ideal_time_per_div VALID_TIMEBASES of
           Some t_base_sec \<Rightarrow>
             (case dict_get VDS_TIMEBASE_MAP t_base_sec of
                Inl e \<Rightarrow> Inl e
              | Inr s \<Rightarrow> Inr (s, t_base_sec))
         | None \<Rightarrow>
             let t_base_sec = last VALID_TIMEBASES
             in (case dict_get VDS_TIMEBASE_MAP t_base_sec of
                   Inl e \<Rightarrow> Inl e
                 | Inr s \<Rightarrow> Inr (s, t_base_sec))))"

text \<open>Python's \<^verbatim>\<open>sub in s\<close> on strings.\<close>

definition str_contains :: "string \<Rightarrow> string \<Rightarrow> bool" where
  "str_contains sub s = list_ex (\<lambda>i. take (length sub) (drop i s) = sub) [0..<Suc (length s)]"

text \<open>
  \<^verbatim>\<open>numpy.hanning(M)\<close>, \<^verbatim>\<open>numpy.ones(M)\<close> and \<^verbatim>\<open>numpy.fft.fft\<close> (the discrete Fourier
  transform \<open>X k = \<Sum>n. x n * exp (-2 \<pi> i k n / M)\<close>), as numpy documents them.
\<close>

definition np_hanning :: "nat \<Rightarrow> real list" where
  "np_hanning M =
     (if M = 1 then [1]
      else map (\<lambda>n. 1 / 2 - 1 / 2 * cos (2 * pi * real n / real (M - 1))) [0..<M])"

definition np_ones :: "nat \<Rightarrow> real list" where
  "np_ones M = replicate M 1"

definition np_fft :: "real list \<Rightarrow> complex list" where
  "np_fft xs =
     map (\<lambda>k. \<Sum>n<length xs.
            of_real (xs ! n) * cis (- (2 * pi * real k * real n / real (length xs))))
       [0..<length xs]"

text \<open>The window of the configuration: \<^verbatim>\<open>"HANN" in config['window']\<close>.\<close>

definition fft_window :: "spectrum_config \<Rightarrow> real list" where
  "fft_window cfg = (if str_contains ''HANN'' (window cfg) then np_hanning N else np_ones N)"

text \<open>
  One accepted repetition: raw codes to volts, the window, the transform.
\<close>

definition acquire_fft :: "spectrum_config \<Rightarrow> real \<Rightarrow> int list \<Rightarrow> complex list" where
  "acquire_fft cfg volts_per_step raw_data =
     (let volts = map (\<lambda>c. (real_of_int c - 255 / 2) * volts_per_step) raw_data;
          volts_windowed = map2 (*) volts (fft_window cfg)
      in np_fft volts_windowed)"

text \<open>
  \<^verbatim>\<open>np.mean(np.array(all_complex_ffts), axis=0)\<close>: the mean of each of the \<open>N\<close> columns
  (every retained spectrum has \<open>N\<close> entries).
\<close>

definition mean_axis0 :: "complex list list \<Rightarrow> complex list" where
  "mean_axis0 xss =
     map (\<lambda>k. (\<Sum>xs\<leftarrow>xss. xs ! k) / of_nat (length xss)) [0..<N]"

text \<open>
  The computation after the loop (from \<^verbatim>\<open>avg_complex_fft\<close> to \<^verbatim>\<open>v_db\<close>): frequency
  axis, RMS amplitude and dB amplitude of the first \<open>N // 2\<close> bins. numpy's
  \<^verbatim>\<open>fftfreq(N, d)[k]\<close> is \<open>k / (N * d)\<close> for the bins below \<open>N / 2\<close>.
\<close>

definition average_spectrum ::
  "complex list list \<Rightarrow> real list \<Rightarrow> real \<Rightarrow> real list \<times> real list \<times> real list" where
  "average_spectrum all_complex_ffts win sample_rate_hz =
     (let avg_complex_fft = mean_axis0 all_complex_ffts;
          fft_mag = map cmod (take (N div 2) avg_complex_fft);
          freq_axis_hz = take (N div 2)
             (map (\<lambda>k. real k / (real N * (1 / sample_rate_hz))) [0..<N]);
          window_sum = sum_list win;
          v_peak = map (\<lambda>m. (m * 2) / window_sum) fft_mag;
          v_rms = map (\<lambda>p. p / sqrt 2) v_peak;
          v_rms = v_rms[0 := cmod (avg_complex_fft ! 0) / window_sum];
          epsilon = 1 / 10^12;
          v_db = map (\<lambda>r. 20 * log 10 (r + epsilon)) v_rms
      in (freq_axis_hz, v_rms, v_db))"

text \<open>
  The answer of the oscilloscope to the query \<^verbatim>\<open>*ADC?\<close>: the bytes received (numbers from
  0 to 255), a time-out of the socket (the query returns \<^verbatim>\<open>None\<close> and the link stays up),
  or a failure of the socket (the query returns \<^verbatim>\<open>None\<close> after closing the link).
\<close>

datatype adc_reply = AdcBytes "nat list" | AdcTimeout | AdcBroken

text \<open>
  Where a \<^verbatim>\<open>KeyboardInterrupt\<close> reaches a repetition: in the wait after \<^verbatim>\<open>*RUN\<close>, in the
  wait after \<^verbatim>\<open>*STOP\<close>, or while the query waits for its answer.
\<close>

datatype rep_interrupt = RepQuiet | RepAfterRun | RepAfterStop | RepInQuery

text \<open>
  What happens in one repetition: the write of \<^verbatim>\<open>*RUN\<close> or of \<^verbatim>\<open>*STOP\<close> may fail (the
  link is then closed without an exception), the operator may interrupt, and the
  oscilloscope answers \<^verbatim>\<open>*ADC?\<close>.
\<close>

record rep_env =
  run_write_fails :: bool
  stop_write_fails_rep :: bool
  rep_interrupt :: rep_interrupt
  adc :: adc_reply

text \<open>
  Where a \<^verbatim>\<open>KeyboardInterrupt\<close> reaches the function outside the repetitions: at the
  prompt (the only place where it is caught), in the waits after the first \<^verbatim>\<open>*STOP\<close> and
  after the timebase command, during the read-back, or after the last \<^verbatim>\<open>*RUN\<close> was
  written.
\<close>

datatype analysis_interrupt =
    Uninterrupted
  | AtPrompt
  | AfterFirstStop
  | AfterSetScale
  | InReadBack
  | AfterLastRun

text \<open>
  What the analysis sees of the outside: whether the link to the oscilloscope is up at the
  start, where the operator interrupts, the writes that fail before and after the loop, the
  vertical scale and the probe attenuation read back from the instrument (\<open>None\<close> when
  reading or parsing them raises), and the repetitions.
\<close>

record spectrum_env =
  link_up :: bool
  interrupted :: analysis_interrupt
  first_stop_write_fails :: bool
  scale_write_fails :: bool
  readback :: "(real \<times> int) option"
  reps :: "nat \<Rightarrow> rep_env"
  final_run_write_fails :: bool

text \<open>
  The state of the analysis: the \<^verbatim>\<open>_is_connected\<close> flag of the driver, the commands that
  reached the oscilloscope, and the list \<^verbatim>\<open>all_complex_ffts\<close>.
\<close>

record spectrum_state =
  sp_up :: bool
  sp_commands :: "command list"
  spectra :: "complex list list"

text \<open>
  The driver's \<^verbatim>\<open>_send_command\<close> on this state: \<^verbatim>\<open>ConnectionError\<close> on a closed link; a
  write that fails closes the link and raises nothing.
\<close>

definition scope_send :: "command \<Rightarrow> bool \<Rightarrow> spectrum_state \<Rightarrow> exc + spectrum_state" where
  "scope_send c write_fails st =
     (if \<not> sp_up st then Inl ConnectionError
      else if write_fails then Inr (st\<lparr>sp_up := False\<rparr>)
      else Inr (st\<lparr>sp_commands := sp_commands st @ [c]\<rparr>))"

text \<open>
  The driver's \<^verbatim>\<open>get_adc_data\<close>: the query raises \<^verbatim>\<open>ConnectionError\<close> on a closed link;
  no answer, an empty answer and an answer of fewer than 500 bytes give \<^verbatim>\<open>None\<close>;
  otherwise the first 500 bytes are returned as integers.
\<close>

definition get_adc_data ::
  "adc_reply \<Rightarrow> spectrum_state \<Rightarrow> exc + (int list option \<times> spectrum_state)" where
  "get_adc_data reply st =
     (if \<not> sp_up st then Inl ConnectionError
      else
        (case reply of
           AdcBytes raw_data \<Rightarrow>
             if raw_data = [] then Inr (None, st)
             else if length raw_data < 500 then Inr (None, st)
             else Inr (Some (map int (take 500 raw_data)), st)
         | AdcTimeout \<Rightarrow> Inr (None, st)
         | AdcBroken \<Rightarrow> Inr (None, st\<lparr>sp_up := False\<rparr>)))"

text \<open>
  The body of the \<^verbatim>\<open>for i in range(config['num_averages'])\<close> loop: the state after it and
  the exception that leaves it, if any. For an array whose length is not \<open>N\<close> the message
  of the source evaluates \<^verbatim>\<open>len(raw_data) if raw_data else 'None'\<close>; the truth value of a
  numpy array of two or more elements raises \<^verbatim>\<open>ValueError\<close>, and a shorter array is
  skipped like an absent one. (The driver returns 500 integers or \<^verbatim>\<open>None\<close>, so this
  branch is not taken with it.)
\<close>

definition spectrum_step ::
  "spectrum_config \<Rightarrow> rep_env \<Rightarrow> real \<Rightarrow> spectrum_state \<Rightarrow> spectrum_state \<times> exc option" where
  "spectrum_step cfg re volts_per_step st =
     (case scope_send ScopeRun (run_write_fails re) st of
        Inl e \<Rightarrow> (st, Some e)
      | Inr st1 \<Rightarrow>
         if rep_interrupt re = RepAfterRun then (st1, Some KeyboardInterrupt)
         else
          (case scope_send ScopeStop (stop_write_fails_rep re) st1 of
             Inl e \<Rightarrow> (st1, Some e)
           | Inr st2 \<Rightarrow>
              if rep_interrupt re = RepAfterStop then (st2, Some KeyboardInterrupt)
              else if sp_up st2 \<and> rep_interrupt re = RepInQuery
              then (st2, Some KeyboardInterrupt)
              else
              (case get_adc_data (adc re) st2 of
                 Inl e \<Rightarrow> (st2, Some e)
               | Inr (None, st3) \<Rightarrow> (st3, None)
               | Inr (Some raw_data, st3) \<Rightarrow>
                   if length raw_data \<noteq> N
                   then (if 2 \<le> length raw_data then (st3, Some ValueError) else (st3, None))
                   else (st3\<lparr>spectra := spectra st3 @ [acquire_fft cfg volts_per_step raw_data]\<rparr>,
                         None))))"

fun spectrum_loop ::
  "spectrum_config \<Rightarrow> (nat \<Rightarrow> rep_env) \<Rightarrow> real \<Rightarrow> nat list \<Rightarrow> spectrum_state
     \<Rightarrow> spectrum_state \<times> exc option" where
  "spectrum_loop cfg env volts_per_step [] st = (st, None)"
| "spectrum_loop cfg env volts_per_step (i # rest) st =
     (case spectrum_step cfg (env i) volts_per_step st of
        (st', None) \<Rightarrow> spectrum_loop cfg env volts_per_step rest st'
      | (st', Some e) \<Rightarrow> (st', Some e))"

text \<open>
  The whole function: what leaves it, an exception or the result (\<open>None\<close> for
  \<^verbatim>\<open>(None, None, None, config)\<close>), and the commands that reached the oscilloscope. The
  read-back of the vertical scale and of the probe attenuation fails on a closed link, and
  every exception in it other than the interrupt makes the function return \<^verbatim>\<open>None\<close>.
\<close>

definition run_spectrum_analysis ::
  "spectrum_config \<Rightarrow> spectrum_env
     \<Rightarrow> (exc + (real list \<times> real list \<times> real list) option) \<times> command list" where
  "run_spectrum_analysis cfg env =
     (case get_best_timebase (resolution_hz cfg) of
        Inl e \<Rightarrow> (Inl e, [])
      | Inr (t_base_str, t_base_sec) \<Rightarrow>
          let total_time_s = t_base_sec * 10;
              sample_rate_hz = real N / total_time_s
          in if interrupted env = AtPrompt then (Inr None, [])
             else
              (case scope_send ScopeStop (first_stop_write_fails env)
                      \<lparr>sp_up = link_up env, sp_commands = [], spectra = []\<rparr> of
                 Inl e \<Rightarrow> (Inl e, [])
               | Inr st1 \<Rightarrow>
                  if interrupted env = AfterFirstStop
                  then (Inl KeyboardInterrupt, sp_commands st1)
                  else
                  (case scope_send (ScopeTimebaseScale t_base_str) (scale_write_fails env) st1 of
                     Inl e \<Rightarrow> (Inl e, sp_commands st1)
                   | Inr st2 \<Rightarrow>
                      if interrupted env = AfterSetScale
                         \<or> (interrupted env = InReadBack \<and> sp_up st2)
                      then (Inl KeyboardInterrupt, sp_commands st2)
                      else
                      (case (if sp_up st2 then readback env else None) of
                         None \<Rightarrow> (Inr None, sp_commands st2)
                       | Some (v_div_val, probe_val) \<Rightarrow>
                          let volts_per_step = (8 * v_div_val * real_of_int probe_val) / 255
                          in (case spectrum_loop cfg (reps env) volts_per_step
                                     [0..<nat (sp_num_averages cfg)] st2 of
                                (st3, Some e) \<Rightarrow> (Inl e, sp_commands st3)
                              | (st3, None) \<Rightarrow>
                                 (case scope_send ScopeRun (final_run_write_fails env) st3 of
                                    Inl e \<Rightarrow> (Inl e, sp_commands st3)
                                  | Inr st4 \<Rightarrow>
                                     if interrupted env = AfterLastRun
                                     then (Inl KeyboardInterrupt, sp_commands st4)
                                     else if spectra st4 = []
                                     then (Inr None, sp_commands st4)
                                     else (Inr (Some (average_spectrum (spectra st4)
                                                        (fft_window cfg) sample_rate_hz)),
                                           sp_commands st4)))))))"

text \<open>
  A repetition in which nothing goes wrong: the writes succeed, there is no interrupt, and
  the query does not break the link. Such a repetition is accepted when the answer has at
  least 500 bytes.
\<close>

definition quiet_rep :: "rep_env \<Rightarrow> bool" where
  "quiet_rep re =
     (\<not> run_write_fails re \<and> \<not> stop_write_fails_rep re \<and> rep_interrupt re = RepQuiet
      \<and> adc re \<noteq> AdcBroken)"

fun accepted :: "adc_reply \<Rightarrow> bool" where
  "accepted (AdcBytes raw_data) = (500 \<le> length raw_data)"
| "accepted r = False"

text \<open>
  The RMS amplitude as the specification words it: a peak amplitude per bin, the magnitude
  times \<open>2 / window_sum\<close> except for bin 0, which is the magnitude over \<open>window_sum\<close>, and
  the RMS amplitude as that peak over \<open>\<surd>2\<close> in every bin.
\<close>

definition spec_v_rms :: "complex list list \<Rightarrow> real list \<Rightarrow> nat \<Rightarrow> real" where
  "spec_v_rms all_complex_ffts win k =
     (let m = cmod (mean_axis0 all_complex_ffts ! k);
          peak = (if k = 0 then m / sum_list win else m * 2 / sum_list win)
      in peak / sqrt 2)"

subsection \<open>The Bode sweep (\<^verbatim>\<open>run_full_experiment\<close>)\<close>






















section \<open>Properties\<close>

subsection \<open>Double-precision arithmetic\<close>

lemma round_even_eqI:
  assumes "\<bar>x - of_int m\<bar> < 1 / 2"
  shows "round_even x = m"
proof -
  have lo: "of_int m - 1 / 2 < x" and hi: "x < of_int m + 1 / 2"
    using assms by linarith+
  have "of_int (m - 1) \<le> x" using lo by simp
  then have l: "m - 1 \<le> \<lfloor>x\<rfloor>" by (simp only: le_floor_iff)
  have "x < of_int (m + 1)" using hi by simp
  then have u: "\<lfloor>x\<rfloor> < m + 1" by (simp only: floor_less_iff)
  from l u have "\<lfloor>x\<rfloor> = m \<or> \<lfloor>x\<rfloor> = m - 1" by linarith
  then show ?thesis
  proof
    assume f: "\<lfloor>x\<rfloor> = m"
    then have "x - of_int \<lfloor>x\<rfloor> < 1 / 2" using hi by simp
    then show ?thesis by (simp add: round_even_def Let_def f)
  next
    assume f: "\<lfloor>x\<rfloor> = m - 1"
    then have "x - of_int \<lfloor>x\<rfloor> > 1 / 2" using lo by simp
    then show ?thesis by (simp add: round_even_def Let_def f)
  qed
qed

lemma powr_neg_nat: "(2::real) powr (- real k) = 1 / 2 ^ k"
  by (simp add: powr_minus powr_realpow field_simps)

lemma floor_log2_small:
  assumes "1 / 2 ^ k \<le> x" and "x < 2 / 2 ^ k"
  shows "\<lfloor>log 2 x\<rfloor> = - int k"
proof -
  have "0 < 1 / (2::real) ^ k" by simp
  with assms(1) have pos: "0 < x" by linarith
  have a: "2 powr (- real k) \<le> x"
    unfolding powr_neg_nat using assms(1) .
  have "(2::real) powr (- real k + 1) = 2 powr (- real k) * 2 powr 1"
    by (rule powr_add)
  also have "\<dots> = 2 / 2 ^ k" by (simp add: powr_neg_nat)
  finally have eq: "(2::real) powr (- real k + 1) = 2 / 2 ^ k" .
  have b: "x < 2 powr (- real k + 1)"
    unfolding eq using assms(2) .
  have "- real k \<le> log 2 x" using a pos by (simp add: le_log_iff)
  moreover have "log 2 x < - real k + 1" using b pos by (simp add: log_less_iff)
  ultimately show ?thesis by (simp add: floor_eq_iff)
qed

lemma floor_log2_big:
  assumes "2 ^ k \<le> x" and "x < 2 * 2 ^ k"
  shows "\<lfloor>log 2 x\<rfloor> = int k"
proof -
  have "0 < (2::real) ^ k" by simp
  with assms(1) have pos: "0 < x" by linarith
  have a: "2 powr (real k) \<le> x"
    using assms(1) by (simp add: powr_realpow)
  have b: "x < 2 powr (real k + 1)"
    using assms(2) by (simp add: powr_add powr_realpow)
  have "real k \<le> log 2 x" using a pos by (simp add: le_log_iff)
  moreover have "log 2 x < real k + 1" using b pos by (simp add: log_less_iff)
  ultimately show ?thesis by (simp add: floor_eq_iff)
qed

lemma nearest_pos_exponent:
  assumes "0 < x" and "max \<lfloor>log 2 x\<rfloor> (- 1022) = e" and "2 powr (of_int e - 52) = q"
    and "round_even (x / q) = m"
  shows "nearest x = of_int m * q"
proof -
  have ax: "\<bar>x\<bar> = x" and nz: "x \<noteq> 0" using assms(1) by simp_all
  show ?thesis
    unfolding nearest_def Let_def ax assms(2) assms(3) assms(4) using nz by simp
qed

lemma nearest_small_eqI:
  assumes "1 / 2 ^ k \<le> x" and "x < 2 / 2 ^ k" and "k \<le> 1022"
    and "\<bar>x * 2 ^ (k + 52) - of_int m\<bar> < 1 / 2"
  shows "nearest x = of_int m / 2 ^ (k + 52)"
proof -
  have "0 < 1 / (2::real) ^ k" by simp
  with assms(1) have pos: "0 < x" by linarith
  have e: "max \<lfloor>log 2 x\<rfloor> (- 1022) = - int k"
    using floor_log2_small [OF assms(1,2)] assms(3) by simp
  have "(of_int (- int k) - 52 :: real) = - real (k + 52)" by simp
  then have q: "(2::real) powr (of_int (- int k) - 52) = 1 / 2 ^ (k + 52)"
    by (simp only: powr_neg_nat)
  have r: "round_even (x / (1 / 2 ^ (k + 52))) = m"
    using assms(4) by (intro round_even_eqI) simp
  show ?thesis
    using nearest_pos_exponent [OF pos e q r] by simp
qed

lemma nearest_big_eqI:
  assumes "2 ^ k \<le> x" and "x < 2 * 2 ^ k" and "k \<le> 52"
    and "\<bar>x * 2 ^ (52 - k) - of_int m\<bar> < 1 / 2"
  shows "nearest x = of_int m / 2 ^ (52 - k)"
proof -
  have "0 < (2::real) ^ k" by simp
  with assms(1) have pos: "0 < x" by linarith
  have e: "max \<lfloor>log 2 x\<rfloor> (- 1022) = int k"
    using floor_log2_big [OF assms(1,2)] by simp
  have "(of_int (int k) - 52 :: real) = - real (52 - k)" using assms(3) by simp
  then have q: "(2::real) powr (of_int (int k) - 52) = 1 / 2 ^ (52 - k)"
    by (simp only: powr_neg_nat)
  have r: "round_even (x / (1 / 2 ^ (52 - k))) = m"
    using assms(4) by (intro round_even_eqI) simp
  show ?thesis
    using nearest_pos_exponent [OF pos e q r] by simp
qed

lemma fl_small:
  assumes "\<bar>nearest x\<bar> \<le> 1024"
  shows "fl x = Finite (nearest x)"
proof -
  have "(1024::real) = 2 ^ 10" by simp
  also have "\<dots> < 2 ^ 1024" by (rule power_strict_increasing) simp_all
  finally have "(1024::real) < 2 ^ 1024" .
  with assms have "nearest x < 2 ^ 1024" "- (2 ^ 1024) < nearest x" by linarith+
  then show ?thesis by (simp add: fl_def Let_def)
qed

subsection \<open>Timebase selection\<close>

lemma timebase_key_5ns: "nearest (5 / 10^9) = 3022314549036573 / 2 ^ 79"
proof -
  have "nearest (5 / 10^9) = of_int 6044629098073146 / 2 ^ (28 + 52)"
    by (rule nearest_small_eqI) simp_all
  then show ?thesis by simp
qed

lemma timebase_key_10ns: "nearest (10 / 10^9) = 3022314549036573 / 2 ^ 78"
proof -
  have "nearest (10 / 10^9) = of_int 6044629098073146 / 2 ^ (27 + 52)"
    by (rule nearest_small_eqI) simp_all
  then show ?thesis by simp
qed

lemma timebase_key_20ns: "nearest (20 / 10^9) = 3022314549036573 / 2 ^ 77"
proof -
  have "nearest (20 / 10^9) = of_int 6044629098073146 / 2 ^ (26 + 52)"
    by (rule nearest_small_eqI) simp_all
  then show ?thesis by simp
qed

lemma timebase_key_50ns: "nearest (50 / 10^9) = 944473296573929 / 2 ^ 74"
proof -
  have "nearest (50 / 10^9) = of_int 7555786372591432 / 2 ^ (25 + 52)"
    by (rule nearest_small_eqI) simp_all
  then show ?thesis by simp
qed

lemma timebase_key_100ns: "nearest (100 / 10^9) = 944473296573929 / 2 ^ 73"
proof -
  have "nearest (100 / 10^9) = of_int 7555786372591432 / 2 ^ (24 + 52)"
    by (rule nearest_small_eqI) simp_all
  then show ?thesis by simp
qed

lemma timebase_key_200ns: "nearest (200 / 10^9) = 944473296573929 / 2 ^ 72"
proof -
  have "nearest (200 / 10^9) = of_int 7555786372591432 / 2 ^ (23 + 52)"
    by (rule nearest_small_eqI) simp_all
  then show ?thesis by simp
qed

lemma timebase_key_500ns: "nearest (500 / 10^9) = 4722366482869645 / 2 ^ 73"
proof -
  have "nearest (500 / 10^9) = of_int 4722366482869645 / 2 ^ (21 + 52)"
    by (rule nearest_small_eqI) simp_all
  then show ?thesis by simp
qed

lemma timebase_key_1us: "nearest (1 / 10^6) = 4722366482869645 / 2 ^ 72"
proof -
  have "nearest (1 / 10^6) = of_int 4722366482869645 / 2 ^ (20 + 52)"
    by (rule nearest_small_eqI) simp_all
  then show ?thesis by simp
qed

lemma timebase_key_2us: "nearest (2 / 10^6) = 4722366482869645 / 2 ^ 71"
proof -
  have "nearest (2 / 10^6) = of_int 4722366482869645 / 2 ^ (19 + 52)"
    by (rule nearest_small_eqI) simp_all
  then show ?thesis by simp
qed

lemma timebase_key_5us: "nearest (5 / 10^6) = 5902958103587057 / 2 ^ 70"
proof -
  have "nearest (5 / 10^6) = of_int 5902958103587057 / 2 ^ (18 + 52)"
    by (rule nearest_small_eqI) simp_all
  then show ?thesis by simp
qed

lemma timebase_key_10us: "nearest (10 / 10^6) = 5902958103587057 / 2 ^ 69"
proof -
  have "nearest (10 / 10^6) = of_int 5902958103587057 / 2 ^ (17 + 52)"
    by (rule nearest_small_eqI) simp_all
  then show ?thesis by simp
qed

lemma timebase_key_20us: "nearest (20 / 10^6) = 5902958103587057 / 2 ^ 68"
proof -
  have "nearest (20 / 10^6) = of_int 5902958103587057 / 2 ^ (16 + 52)"
    by (rule nearest_small_eqI) simp_all
  then show ?thesis by simp
qed

lemma timebase_key_50us: "nearest (50 / 10^6) = 7378697629483821 / 2 ^ 67"
proof -
  have "nearest (50 / 10^6) = of_int 7378697629483821 / 2 ^ (15 + 52)"
    by (rule nearest_small_eqI) simp_all
  then show ?thesis by simp
qed

lemma timebase_key_100us: "nearest (100 / 10^6) = 7378697629483821 / 2 ^ 66"
proof -
  have "nearest (100 / 10^6) = of_int 7378697629483821 / 2 ^ (14 + 52)"
    by (rule nearest_small_eqI) simp_all
  then show ?thesis by simp
qed

lemma timebase_key_200us: "nearest (200 / 10^6) = 7378697629483821 / 2 ^ 65"
proof -
  have "nearest (200 / 10^6) = of_int 7378697629483821 / 2 ^ (13 + 52)"
    by (rule nearest_small_eqI) simp_all
  then show ?thesis by simp
qed

lemma timebase_key_500us: "nearest (500 / 10^6) = 1152921504606847 / 2 ^ 61"
proof -
  have "nearest (500 / 10^6) = of_int 4611686018427388 / 2 ^ (11 + 52)"
    by (rule nearest_small_eqI) simp_all
  then show ?thesis by simp
qed

lemma timebase_key_1ms: "nearest (1 / 10^3) = 1152921504606847 / 2 ^ 60"
proof -
  have "nearest (1 / 10^3) = of_int 4611686018427388 / 2 ^ (10 + 52)"
    by (rule nearest_small_eqI) simp_all
  then show ?thesis by simp
qed

lemma timebase_key_2ms: "nearest (2 / 10^3) = 1152921504606847 / 2 ^ 59"
proof -
  have "nearest (2 / 10^3) = of_int 4611686018427388 / 2 ^ (9 + 52)"
    by (rule nearest_small_eqI) simp_all
  then show ?thesis by simp
qed

lemma timebase_key_5ms: "nearest (5 / 10^3) = 5764607523034235 / 2 ^ 60"
proof -
  have "nearest (5 / 10^3) = of_int 5764607523034235 / 2 ^ (8 + 52)"
    by (rule nearest_small_eqI) simp_all
  then show ?thesis by simp
qed

lemma timebase_key_10ms: "nearest (10 / 10^3) = 5764607523034235 / 2 ^ 59"
proof -
  have "nearest (10 / 10^3) = of_int 5764607523034235 / 2 ^ (7 + 52)"
    by (rule nearest_small_eqI) simp_all
  then show ?thesis by simp
qed

lemma timebase_key_20ms: "nearest (20 / 10^3) = 5764607523034235 / 2 ^ 58"
proof -
  have "nearest (20 / 10^3) = of_int 5764607523034235 / 2 ^ (6 + 52)"
    by (rule nearest_small_eqI) simp_all
  then show ?thesis by simp
qed

lemma timebase_key_50ms: "nearest (50 / 10^3) = 3602879701896397 / 2 ^ 56"
proof -
  have "nearest (50 / 10^3) = of_int 7205759403792794 / 2 ^ (5 + 52)"
    by (rule nearest_small_eqI) simp_all
  then show ?thesis by simp
qed

lemma timebase_key_100ms: "nearest (100 / 10^3) = 3602879701896397 / 2 ^ 55"
proof -
  have "nearest (100 / 10^3) = of_int 7205759403792794 / 2 ^ (4 + 52)"
    by (rule nearest_small_eqI) simp_all
  then show ?thesis by simp
qed

lemma timebase_key_200ms: "nearest (200 / 10^3) = 3602879701896397 / 2 ^ 54"
proof -
  have "nearest (200 / 10^3) = of_int 7205759403792794 / 2 ^ (3 + 52)"
    by (rule nearest_small_eqI) simp_all
  then show ?thesis by simp
qed

lemma timebase_key_500ms: "nearest (500 / 10^3) = 1 / 2 ^ 1"
proof -
  have "nearest (500 / 10^3) = of_int 4503599627370496 / 2 ^ (1 + 52)"
    by (rule nearest_small_eqI) simp_all
  then show ?thesis by simp
qed

lemma timebase_key_1s: "nearest (1) = 1"
proof -
  have "nearest (1) = of_int 4503599627370496 / 2 ^ (52 - 0)"
    by (rule nearest_big_eqI) simp_all
  then show ?thesis by simp
qed

lemma timebase_key_2s: "nearest (2) = 2"
proof -
  have "nearest (2) = of_int 4503599627370496 / 2 ^ (52 - 1)"
    by (rule nearest_big_eqI) simp_all
  then show ?thesis by simp
qed

lemma timebase_key_5s: "nearest (5) = 5"
proof -
  have "nearest (5) = of_int 5629499534213120 / 2 ^ (52 - 2)"
    by (rule nearest_big_eqI) simp_all
  then show ?thesis by simp
qed

lemma timebase_key_10s: "nearest (10) = 10"
proof -
  have "nearest (10) = of_int 5629499534213120 / 2 ^ (52 - 3)"
    by (rule nearest_big_eqI) simp_all
  then show ?thesis by simp
qed

lemma timebase_key_20s: "nearest (20) = 20"
proof -
  have "nearest (20) = of_int 5629499534213120 / 2 ^ (52 - 4)"
    by (rule nearest_big_eqI) simp_all
  then show ?thesis by simp
qed

lemma timebase_key_50s: "nearest (50) = 50"
proof -
  have "nearest (50) = of_int 7036874417766400 / 2 ^ (52 - 5)"
    by (rule nearest_big_eqI) simp_all
  then show ?thesis by simp
qed

lemma timebase_key_100s: "nearest (100) = 100"
proof -
  have "nearest (100) = of_int 7036874417766400 / 2 ^ (52 - 6)"
    by (rule nearest_big_eqI) simp_all
  then show ?thesis by simp
qed

lemmas timebase_keys =
  timebase_key_5ns
  timebase_key_10ns
  timebase_key_20ns
  timebase_key_50ns
  timebase_key_100ns
  timebase_key_200ns
  timebase_key_500ns
  timebase_key_1us
  timebase_key_2us
  timebase_key_5us
  timebase_key_10us
  timebase_key_20us
  timebase_key_50us
  timebase_key_100us
  timebase_key_200us
  timebase_key_500us
  timebase_key_1ms
  timebase_key_2ms
  timebase_key_5ms
  timebase_key_10ms
  timebase_key_20ms
  timebase_key_50ms
  timebase_key_100ms
  timebase_key_200ms
  timebase_key_500ms
  timebase_key_1s
  timebase_key_2s
  timebase_key_5s
  timebase_key_10s
  timebase_key_20s
  timebase_key_50s
  timebase_key_100s

lemma timebase_key_values:
  "map fst VDS_TIMEBASE_MAP =
    [3022314549036573 / 2 ^ 79,
     3022314549036573 / 2 ^ 78,
     3022314549036573 / 2 ^ 77,
     944473296573929 / 2 ^ 74,
     944473296573929 / 2 ^ 73,
     944473296573929 / 2 ^ 72,
     4722366482869645 / 2 ^ 73,
     4722366482869645 / 2 ^ 72,
     4722366482869645 / 2 ^ 71,
     5902958103587057 / 2 ^ 70,
     5902958103587057 / 2 ^ 69,
     5902958103587057 / 2 ^ 68,
     7378697629483821 / 2 ^ 67,
     7378697629483821 / 2 ^ 66,
     7378697629483821 / 2 ^ 65,
     1152921504606847 / 2 ^ 61,
     1152921504606847 / 2 ^ 60,
     1152921504606847 / 2 ^ 59,
     5764607523034235 / 2 ^ 60,
     5764607523034235 / 2 ^ 59,
     5764607523034235 / 2 ^ 58,
     3602879701896397 / 2 ^ 56,
     3602879701896397 / 2 ^ 55,
     3602879701896397 / 2 ^ 54,
     1 / 2 ^ 1,
     1,
     2,
     5,
     10,
     20,
     50,
     100]"
  unfolding VDS_TIMEBASE_MAP_def list.map fst_conv timebase_keys
  by (rule refl)


lemma sorted_timebase_keys: "sorted (map fst VDS_TIMEBASE_MAP)"
  unfolding timebase_key_values sorted2 sorted1
  by simp

lemma sorted_le_last: "sorted xs \<Longrightarrow> x \<in> set xs \<Longrightarrow> x \<le> last (xs::real list)"
  by (induction xs) auto

lemma VALID_TIMEBASES_list:
  "VALID_TIMEBASES = map fst VDS_TIMEBASE_MAP"
  unfolding VALID_TIMEBASES_def
  by (rule sorted_sort_id) (rule sorted_timebase_keys)

lemma sorted_VALID_TIMEBASES: "sorted VALID_TIMEBASES"
  unfolding VALID_TIMEBASES_def by simp

lemma dict_get_VALID:
  assumes "t \<in> set VALID_TIMEBASES"
  shows "\<exists>s. dict_get VDS_TIMEBASE_MAP t = Inr s \<and> map_of VDS_TIMEBASE_MAP t = Some s"
proof -
  from assms have "t \<in> fst ` set VDS_TIMEBASE_MAP"
    by (simp add: VALID_TIMEBASES_list)
  then obtain s where "map_of VDS_TIMEBASE_MAP t = Some s"
    by (metis map_of_eq_None_iff not_Some_eq)
  then show ?thesis by (simp add: dict_get_def)
qed

lemma py_ge_mono: "t \<le> u \<Longrightarrow> py_ge t x \<Longrightarrow> py_ge u x"
  by (cases x) (auto simp: py_ge_def)

lemma first_fit_Some:
  "first_fit x ts = Some t \<Longrightarrow> t \<in> set ts \<and> py_ge t x"
  by (induction ts) (auto split: if_splits)

lemma first_fit_least:
  "sorted ts \<Longrightarrow> first_fit x ts = Some t \<Longrightarrow> u \<in> set ts \<Longrightarrow> py_ge u x \<Longrightarrow> t \<le> u"
  by (induction ts) (auto split: if_splits)

lemma first_fit_None:
  "first_fit x ts = None \<longleftrightarrow> (\<forall>u\<in>set ts. \<not> py_ge u x)"
  by (induction ts) auto

lemma first_fit_hd:
  "ts \<noteq> [] \<Longrightarrow> py_ge (hd ts) x \<Longrightarrow> first_fit x ts = Some (hd ts)"
  by (cases ts) auto

lemma last_VALID: "last VALID_TIMEBASES = 100"
  unfolding VALID_TIMEBASES_list timebase_key_values by simp

lemma hd_VALID: "hd VALID_TIMEBASES = nearest (5 / 10^9)"
  by (simp add: VALID_TIMEBASES_list VDS_TIMEBASE_MAP_def)

lemma VALID_nonempty: "VALID_TIMEBASES \<noteq> []"
  by (simp add: VALID_TIMEBASES_list VDS_TIMEBASE_MAP_def)

lemma VALID_le_100: "u \<in> set VALID_TIMEBASES \<Longrightarrow> u \<le> 100"
  using sorted_le_last [OF sorted_VALID_TIMEBASES] by (simp add: last_VALID)

lemma last_in_VALID: "100 \<in> set VALID_TIMEBASES"
  using last_in_set [OF VALID_nonempty] by (simp add: last_VALID)

lemma hd_in_VALID: "nearest (5 / 10^9) \<in> set VALID_TIMEBASES"
  using hd_in_set [OF VALID_nonempty] by (simp add: hd_VALID)

lemma timebase_choice:
  "\<exists>s t. (case first_fit x VALID_TIMEBASES of
             Some t_base_sec \<Rightarrow>
               (case dict_get VDS_TIMEBASE_MAP t_base_sec of
                  Inl e \<Rightarrow> Inl e
                | Inr s \<Rightarrow> Inr (s, t_base_sec))
           | None \<Rightarrow>
               (case dict_get VDS_TIMEBASE_MAP (last VALID_TIMEBASES) of
                     Inl e \<Rightarrow> Inl e
                   | Inr s \<Rightarrow> Inr (s, last VALID_TIMEBASES))) = Inr (s, t)
           \<and> map_of VDS_TIMEBASE_MAP t = Some s
           \<and> t \<in> set VALID_TIMEBASES
           \<and> (py_ge 100 x \<longrightarrow> py_ge t x \<and> (\<forall>u\<in>set VALID_TIMEBASES. py_ge u x \<longrightarrow> t \<le> u))
           \<and> (py_ge (nearest (5 / 10^9)) x \<longrightarrow> t = nearest (5 / 10^9))
           \<and> (\<not> py_ge 100 x \<longrightarrow> t = 100)"
proof (cases "first_fit x VALID_TIMEBASES")
  case None
  then have big: "\<forall>u\<in>set VALID_TIMEBASES. \<not> py_ge u x"
    by (simp add: first_fit_None)
  with last_in_VALID have gt: "\<not> py_ge 100 x" by blast
  from big hd_in_VALID have nsmall: "\<not> py_ge (nearest (5 / 10^9)) x" by blast
  from dict_get_VALID [OF last_in_VALID] obtain s
    where s: "dict_get VDS_TIMEBASE_MAP 100 = Inr s" "map_of VDS_TIMEBASE_MAP 100 = Some s"
    by blast
  show ?thesis
    using None s gt nsmall last_in_VALID by (simp add: last_VALID)
next
  case (Some t)
  then have t: "t \<in> set VALID_TIMEBASES" "py_ge t x"
    using first_fit_Some by blast+
  from dict_get_VALID [OF t(1)] obtain s
    where s: "dict_get VDS_TIMEBASE_MAP t = Inr s" "map_of VDS_TIMEBASE_MAP t = Some s"
    by blast
  have least: "\<forall>u\<in>set VALID_TIMEBASES. py_ge u x \<longrightarrow> t \<le> u"
    using first_fit_least [OF sorted_VALID_TIMEBASES Some] by blast
  have small: "py_ge (nearest (5 / 10^9)) x \<longrightarrow> t = nearest (5 / 10^9)"
  proof
    assume "py_ge (nearest (5 / 10^9)) x"
    then have "first_fit x VALID_TIMEBASES = Some (hd VALID_TIMEBASES)"
      using first_fit_hd [OF VALID_nonempty] by (simp add: hd_VALID)
    with Some show "t = nearest (5 / 10^9)" by (simp add: hd_VALID)
  qed
  have large: "\<not> py_ge 100 x \<longrightarrow> t = 100"
    using t py_ge_mono [OF VALID_le_100 [OF t(1)]] by blast
  show ?thesis
    using Some s t least small large by simp
qed

lemma get_optimal_timebase_positive:
  assumes "0 < freq"
  shows "get_optimal_timebase freq =
     (case first_fit (computed_ideal freq) VALID_TIMEBASES of
             Some t_base_sec \<Rightarrow>
               (case dict_get VDS_TIMEBASE_MAP t_base_sec of
                  Inl e \<Rightarrow> Inl e
                | Inr s \<Rightarrow> Inr (s, t_base_sec))
           | None \<Rightarrow>
               (case dict_get VDS_TIMEBASE_MAP (last VALID_TIMEBASES) of
                     Inl e \<Rightarrow> Inl e
                   | Inr s \<Rightarrow> Inr (s, last VALID_TIMEBASES)))"
proof -
  have pos: "\<not> freq \<le> 0" and nz: "freq \<noteq> 0" using assms by simp_all
  have r: "py_recip (Finite freq) = Inr (fl (1 / freq))"
    using nz by (simp add: py_recip_def)
  show ?thesis
    unfolding get_optimal_timebase_def if_not_P [OF pos] r computed_ideal_def Let_def
    by simp
qed

lemma computed_ideal_1000:
  "computed_ideal 1000 = Finite (7378697629483821 / 2 ^ 65)"
proof -
  have "nearest (1 / 1000) = of_int 4611686018427388 / 2 ^ (10 + 52)"
    by (rule nearest_small_eqI) simp_all
  then have "nearest (1 / 1000) = 1152921504606847 / 2 ^ 60" by simp
  then have p: "fl (1 / 1000) = Finite (1152921504606847 / 2 ^ 60)"
    by (simp add: fl_small)
  have "nearest (1152921504606847 / 2 ^ 60 * 2) = of_int 4611686018427388 / 2 ^ (9 + 52)"
    by (rule nearest_small_eqI) simp_all
  then have "nearest (1152921504606847 / 2 ^ 60 * 2) = 1152921504606847 / 2 ^ 59" by simp
  then have q: "fl (1152921504606847 / 2 ^ 60 * 2) = Finite (1152921504606847 / 2 ^ 59)"
    by (simp add: fl_small)
  have "nearest (1152921504606847 / 2 ^ 59 / 10) = of_int 7378697629483821 / 2 ^ (13 + 52)"
    by (rule nearest_small_eqI) simp_all
  then have "nearest (1152921504606847 / 2 ^ 59 / 10) = 7378697629483821 / 2 ^ 65" by simp
  then have i: "fl (1152921504606847 / 2 ^ 59 / 10) = Finite (7378697629483821 / 2 ^ 65)"
    by (simp add: fl_small)
  show ?thesis
    by (simp only: computed_ideal_def p q i py_mul_def py_div_def pyfloat.case)
qed

lemma timebase_1000:
  "get_optimal_timebase 1000 = Inr (''200us'', nearest (200 / 10^6))"
proof -
  note ideal = computed_ideal_1000
  have ff: "first_fit (Finite (7378697629483821 / 2 ^ 65)) VALID_TIMEBASES = Some (7378697629483821 / 2 ^ 65)"
    unfolding VALID_TIMEBASES_list timebase_key_values by (simp add: py_ge_def)
  have dg: "dict_get VDS_TIMEBASE_MAP (7378697629483821 / 2 ^ 65) = Inr ''200us''"
    unfolding VDS_TIMEBASE_MAP_def timebase_keys by (simp add: dict_get_def)
  have pos: "0 < (1000::real)" by simp
  have "get_optimal_timebase 1000 = Inr (''200us'', 7378697629483821 / 2 ^ 65)"
    by (simp only: get_optimal_timebase_positive [OF pos] ideal ff dg option.case sum.case)
  then show ?thesis by (simp only: timebase_key_200us)
qed

lemma computed_ideal_100000:
  "computed_ideal 100000 = Finite (2361183241434823 / 2 ^ 70)"
proof -
  have "nearest (1 / 100000) = of_int 5902958103587057 / 2 ^ (17 + 52)"
    by (rule nearest_small_eqI) simp_all
  then have "nearest (1 / 100000) = 5902958103587057 / 2 ^ 69" by simp
  then have p: "fl (1 / 100000) = Finite (5902958103587057 / 2 ^ 69)"
    by (simp add: fl_small)
  have "nearest (5902958103587057 / 2 ^ 69 * 2) = of_int 5902958103587057 / 2 ^ (16 + 52)"
    by (rule nearest_small_eqI) simp_all
  then have "nearest (5902958103587057 / 2 ^ 69 * 2) = 5902958103587057 / 2 ^ 68" by simp
  then have q: "fl (5902958103587057 / 2 ^ 69 * 2) = Finite (5902958103587057 / 2 ^ 68)"
    by (simp add: fl_small)
  have "nearest (5902958103587057 / 2 ^ 68 / 10) = of_int 4722366482869646 / 2 ^ (19 + 52)"
    by (rule nearest_small_eqI) simp_all
  then have "nearest (5902958103587057 / 2 ^ 68 / 10) = 2361183241434823 / 2 ^ 70" by simp
  then have i: "fl (5902958103587057 / 2 ^ 68 / 10) = Finite (2361183241434823 / 2 ^ 70)"
    by (simp add: fl_small)
  show ?thesis
    by (simp only: computed_ideal_def p q i py_mul_def py_div_def pyfloat.case)
qed

lemma timebase_100000:
  "get_optimal_timebase 100000 = Inr (''5us'', nearest (5 / 10^6))"
proof -
  note ideal = computed_ideal_100000
  have ff: "first_fit (Finite (2361183241434823 / 2 ^ 70)) VALID_TIMEBASES = Some (5902958103587057 / 2 ^ 70)"
    unfolding VALID_TIMEBASES_list timebase_key_values by (simp add: py_ge_def)
  have dg: "dict_get VDS_TIMEBASE_MAP (5902958103587057 / 2 ^ 70) = Inr ''5us''"
    unfolding VDS_TIMEBASE_MAP_def timebase_keys by (simp add: dict_get_def)
  have pos: "0 < (100000::real)" by simp
  have "get_optimal_timebase 100000 = Inr (''5us'', 5902958103587057 / 2 ^ 70)"
    by (simp only: get_optimal_timebase_positive [OF pos] ideal ff dg option.case sum.case)
  then show ?thesis by (simp only: timebase_key_5us)
qed

lemma computed_ideal_1000000:
  "computed_ideal 1000000 = Finite (944473296573929 / 2 ^ 72)"
proof -
  have "nearest (1 / 1000000) = of_int 4722366482869645 / 2 ^ (20 + 52)"
    by (rule nearest_small_eqI) simp_all
  then have "nearest (1 / 1000000) = 4722366482869645 / 2 ^ 72" by simp
  then have p: "fl (1 / 1000000) = Finite (4722366482869645 / 2 ^ 72)"
    by (simp add: fl_small)
  have "nearest (4722366482869645 / 2 ^ 72 * 2) = of_int 4722366482869645 / 2 ^ (19 + 52)"
    by (rule nearest_small_eqI) simp_all
  then have "nearest (4722366482869645 / 2 ^ 72 * 2) = 4722366482869645 / 2 ^ 71" by simp
  then have q: "fl (4722366482869645 / 2 ^ 72 * 2) = Finite (4722366482869645 / 2 ^ 71)"
    by (simp add: fl_small)
  have "nearest (4722366482869645 / 2 ^ 71 / 10) = of_int 7555786372591432 / 2 ^ (23 + 52)"
    by (rule nearest_small_eqI) simp_all
  then have "nearest (4722366482869645 / 2 ^ 71 / 10) = 944473296573929 / 2 ^ 72" by simp
  then have i: "fl (4722366482869645 / 2 ^ 71 / 10) = Finite (944473296573929 / 2 ^ 72)"
    by (simp add: fl_small)
  show ?thesis
    by (simp only: computed_ideal_def p q i py_mul_def py_div_def pyfloat.case)
qed

lemma timebase_1000000:
  "get_optimal_timebase 1000000 = Inr (''200ns'', nearest (200 / 10^9))"
proof -
  note ideal = computed_ideal_1000000
  have ff: "first_fit (Finite (944473296573929 / 2 ^ 72)) VALID_TIMEBASES = Some (944473296573929 / 2 ^ 72)"
    unfolding VALID_TIMEBASES_list timebase_key_values by (simp add: py_ge_def)
  have dg: "dict_get VDS_TIMEBASE_MAP (944473296573929 / 2 ^ 72) = Inr ''200ns''"
    unfolding VDS_TIMEBASE_MAP_def timebase_keys by (simp add: dict_get_def)
  have pos: "0 < (1000000::real)" by simp
  have "get_optimal_timebase 1000000 = Inr (''200ns'', 944473296573929 / 2 ^ 72)"
    by (simp only: get_optimal_timebase_positive [OF pos] ideal ff dg option.case sum.case)
  then show ?thesis by (simp only: timebase_key_200ns)
qed

text \<open>
  Two frequencies where the rounding decides. At 100 kHz the exact value of
  \<open>2 * period / 10\<close> is the decimal \<open>2e-6\<close> of the \<open>2us\<close> entry, the computed value is one
  unit in the last place above the float of that entry, and \<open>5us\<close> is returned. At 1 MHz
  the float of the returned \<open>200ns\<close> entry lies below the exact value of
  \<open>2 * period / 10\<close>.
\<close>

theorem get_optimal_timebase_rounding_counterexample:
  "get_optimal_timebase 100000 = Inr (''5us'', nearest (5 / 10^6))
   \<and> 2 * (1 / 100000) / 10 \<le> (2 / 10^6 :: real)
   \<and> map_of VDS_TIMEBASE_MAP (nearest (2 / 10^6)) = Some ''2us''
   \<and> nearest (2 / 10^6) < nearest (5 / 10^6)
   \<and> get_optimal_timebase 1000000 = Inr (''200ns'', nearest (200 / 10^9))
   \<and> nearest (200 / 10^9) < 2 * (1 / 1000000) / 10"
proof -
  have a: "map_of VDS_TIMEBASE_MAP (nearest (2 / 10^6)) = Some ''2us''"
    unfolding VDS_TIMEBASE_MAP_def timebase_keys by simp
  have b: "nearest (2 / 10^6) < nearest (5 / 10^6)"
    unfolding timebase_keys by simp
  have c: "nearest (200 / 10^9) < 2 * (1 / 1000000) / 10"
    unfolding timebase_keys by simp
  have d: "2 * (1 / 100000) / 10 \<le> (2 / 10^6 :: real)" by simp
  from timebase_100000 timebase_1000000 a b c d show ?thesis by blast
qed

text \<open>
  Claim C6, as the code has it. For every positive frequency \<^verbatim>\<open>get_optimal_timebase\<close>
  returns an entry of the enumerated set together with its SCPI string, chosen against the
  value that \<^verbatim>\<open>(1.0 / freq * 2.0) / 10.0\<close> has in double-precision arithmetic: when that
  value is at most the largest entry (100 s), the returned entry is the smallest one that is
  at least that value; when it is at or below the smallest entry (5 ns) the smallest is
  returned; when it exceeds the largest entry (or has overflowed) the largest is returned.
\<close>

theorem get_optimal_timebase_smallest_fit:
  assumes "0 < freq"
  shows "\<exists>s t. get_optimal_timebase freq = Inr (s, t)
           \<and> map_of VDS_TIMEBASE_MAP t = Some s
           \<and> t \<in> set VALID_TIMEBASES
           \<and> (py_ge 100 (computed_ideal freq) \<longrightarrow>
                py_ge t (computed_ideal freq)
                \<and> (\<forall>u\<in>set VALID_TIMEBASES. py_ge u (computed_ideal freq) \<longrightarrow> t \<le> u))
           \<and> (py_ge (nearest (5 / 10^9)) (computed_ideal freq) \<longrightarrow> t = nearest (5 / 10^9))
           \<and> (\<not> py_ge 100 (computed_ideal freq) \<longrightarrow> t = 100)"
  unfolding get_optimal_timebase_positive [OF assms]
  by (rule timebase_choice)

theorem get_optimal_timebase_smallest_fit_witness:
  "get_optimal_timebase 1000 = Inr (''200us'', nearest (200 / 10^6))
   \<and> py_ge 100 (computed_ideal 1000)
   \<and> py_ge (nearest (200 / 10^6)) (computed_ideal 1000)
   \<and> \<not> py_ge (nearest (100 / 10^6)) (computed_ideal 1000)"
proof -
  obtain s t where st: "get_optimal_timebase 1000 = Inr (s, t)"
      "py_ge 100 (computed_ideal 1000) \<longrightarrow>
         py_ge t (computed_ideal 1000)
         \<and> (\<forall>u\<in>set VALID_TIMEBASES. py_ge u (computed_ideal 1000) \<longrightarrow> t \<le> u)"
    using get_optimal_timebase_smallest_fit [of 1000] by auto
  have t: "t = nearest (200 / 10^6)" using st(1) timebase_1000 by simp
  have big: "py_ge 100 (computed_ideal 1000)"
    by (simp add: computed_ideal_1000 py_ge_def)
  have fit: "py_ge (nearest (200 / 10^6)) (computed_ideal 1000)"
    using st(2) big t by simp
  have mem: "nearest (100 / 10^6) \<in> set VALID_TIMEBASES"
    by (simp add: VALID_TIMEBASES_list VDS_TIMEBASE_MAP_def)
  have lt: "nearest (100 / 10^6) < nearest (200 / 10^6)"
    unfolding timebase_keys by simp
  have "\<not> py_ge (nearest (100 / 10^6)) (computed_ideal 1000)"
  proof
    assume "py_ge (nearest (100 / 10^6)) (computed_ideal 1000)"
    with st(2) big mem have "t \<le> nearest (100 / 10^6)" by blast
    with t lt show False by simp
  qed
  with timebase_1000 big fit show ?thesis by blast
qed

subsection \<open>Magnitude and phase\<close>

lemma py_mod_360_range: "0 \<le> py_mod x 360 \<and> py_mod x 360 < 360"
proof -
  have "of_int \<lfloor>x / 360\<rfloor> \<le> x / 360" "x / 360 < of_int \<lfloor>x / 360\<rfloor> + 1"
    by linarith+
  then show ?thesis by (simp add: py_mod_def field_simps)
qed

lemma py_mod_360_small: "0 \<le> x \<Longrightarrow> x < 360 \<Longrightarrow> py_mod x 360 = x"
proof -
  assume "0 \<le> x" "x < 360"
  then have "\<lfloor>x / 360\<rfloor> = 0" by (simp add: floor_eq_iff)
  then show ?thesis by (simp add: py_mod_def)
qed

text \<open>
  Claim C5. For every averaged delay and every positive frequency the recorded phase is the
  floored remainder of \<open>-delay * freq * 360\<close> modulo 360, less 360 when that remainder
  exceeds 180. It lies in the half-open interval \<open>(-180, 180]\<close> and differs from the raw phase
  by a whole number of turns; a raw phase of exactly 180 gives 180, a raw phase of 181 gives
  \<open>-179\<close>.
\<close>

theorem phase_deg_wrap:
  assumes "0 < freq"
  shows "phase_deg delay freq =
           (if py_mod (- delay * freq * 360) 360 > 180
            then py_mod (- delay * freq * 360) 360 - 360
            else py_mod (- delay * freq * 360) 360)
         \<and> py_mod (- delay * freq * 360) 360
             = - delay * freq * 360 - 360 * of_int \<lfloor>(- delay * freq * 360) / 360\<rfloor>
         \<and> - 180 < phase_deg delay freq \<and> phase_deg delay freq \<le> 180
         \<and> (\<exists>k::int. phase_deg delay freq = - delay * freq * 360 + 360 * of_int k)
         \<and> (- delay * freq * 360 = 180 \<longrightarrow> phase_deg delay freq = 180)
         \<and> (- delay * freq * 360 = 181 \<longrightarrow> phase_deg delay freq = - 179)"
proof -
  define raw where "raw = - delay * freq * 360"
  have r: "0 \<le> py_mod raw 360" "py_mod raw 360 < 360"
    using py_mod_360_range [of raw] by simp_all
  have eq: "phase_deg delay freq =
      (if py_mod raw 360 > 180 then py_mod raw 360 - 360 else py_mod raw 360)"
    by (simp only: phase_deg_def Let_def raw_def)
  have range: "- 180 < phase_deg delay freq \<and> phase_deg delay freq \<le> 180"
    using r eq by auto
  have turns: "\<exists>k::int. phase_deg delay freq = raw + 360 * of_int k"
  proof (cases "py_mod raw 360 > 180")
    case True
    then have "phase_deg delay freq = raw + 360 * of_int (- \<lfloor>raw / 360\<rfloor> - 1)"
      using eq by (simp add: py_mod_def)
    then show ?thesis by blast
  next
    case False
    then have "phase_deg delay freq = raw + 360 * of_int (- \<lfloor>raw / 360\<rfloor>)"
      using eq by (simp add: py_mod_def)
    then show ?thesis by blast
  qed
  have p180: "raw = 180 \<longrightarrow> phase_deg delay freq = 180"
    using eq py_mod_360_small [of 180] by simp
  have p181: "raw = 181 \<longrightarrow> phase_deg delay freq = - 179"
    using eq py_mod_360_small [of 181] by simp
  have unf: "py_mod raw 360 = raw - 360 * of_int \<lfloor>raw / 360\<rfloor>"
    by (simp only: py_mod_def)
  show ?thesis
    using eq unf range turns p180 p181 unfolding raw_def by blast
qed

theorem phase_deg_wrap_witness:
  "phase_deg (- 1 / 2) 1 = 180 \<and> phase_deg (- 181 / 360) 1 = - 179"
  using phase_deg_wrap [of 1 "- 1 / 2"] phase_deg_wrap [of 1 "- 181 / 360"]
  by simp

text \<open>
  Claim C10. An averaged primary amplitude below \<open>1e-9\<close> is replaced by exactly \<open>1e-9\<close>
  before the ratio is formed, so the divisor is at least \<open>1e-9\<close>: the division never raises
  \<^verbatim>\<open>ZeroDivisionError\<close>, and the result is either the finite value
  \<open>20 * log10 (vpp2 / max vpp1 1e-9)\<close> or, when the secondary amplitude is not positive, the
  \<^verbatim>\<open>ValueError\<close> of \<^verbatim>\<open>math.log10\<close>; it is never an infinity.
\<close>

theorem magnitude_db_floor_clamp:
  "magnitude_db vpp1 vpp2 =
     (if 0 < vpp2 then Inr (20 * log 10 (vpp2 / max vpp1 (1 / 10^9))) else Inl ValueError)
   \<and> magnitude_db vpp1 vpp2 \<noteq> Inl ZeroDivisionError
   \<and> (if vpp1 < 1 / 10^9 then magnitude_db vpp1 vpp2 = magnitude_db (1 / 10^9) vpp2
       else max vpp1 (1 / 10^9) = vpp1)"
proof -
  have pos: "0 < max vpp1 (1 / 10^9)" by (simp add: less_max_iff_disj)
  have clamp: "(if vpp1 < 1 / 10^9 then 1 / 10^9 else vpp1) = max vpp1 (1 / 10^9)"
    by (simp add: max_def)
  have sign: "0 < vpp2 / max vpp1 (1 / 10^9) \<longleftrightarrow> 0 < vpp2"
    using pos by (simp add: zero_less_divide_iff)
  have nz: "max vpp1 (1 / 10^9) \<noteq> 0" using pos by simp
  have main: "magnitude_db vpp1 vpp2 =
     (if 0 < vpp2 then Inr (20 * log 10 (vpp2 / max vpp1 (1 / 10^9))) else Inl ValueError)"
    unfolding magnitude_db_def Let_def clamp py_truediv_def math_log10_def
    using nz sign by simp
  have main': "magnitude_db (1 / 10^9) vpp2 =
     (if 0 < vpp2 then Inr (20 * log 10 (vpp2 / (1 / 10^9))) else Inl ValueError)"
    unfolding magnitude_db_def Let_def py_truediv_def math_log10_def
    by (simp add: zero_less_divide_iff)
  have same: "vpp1 < 1 / 10^9 \<Longrightarrow> max vpp1 (1 / 10^9) = 1 / 10^9" by simp
  show ?thesis
    using main main' same by (auto simp: max_def)
qed

theorem magnitude_db_floor_clamp_witness:
  "magnitude_db 0 1 = Inr (20 * log 10 (1 / (1 / 10^9)))
   \<and> magnitude_db 0 1 = magnitude_db (1 / 10^9) 1"
  using magnitude_db_floor_clamp [of 0 1] by auto

subsection \<open>The averaging sampler\<close>














subsection \<open>The polling reader\<close>










subsection \<open>The frequency list\<close>

lemma np_linspace_uniform:
  assumes "2 \<le> num"
  shows "np_linspace start stop num =
           Inr (map (\<lambda>i. start + real i * ((stop - start) / real (nat num - 1))) [0..<nat num])"
proof -
  define m where "m = nat num - 2"
  have m: "nat num = Suc (Suc m)"
    unfolding m_def using assms by arith
  have "start + real (Suc m) * ((stop - start) / real (Suc m)) = stop"
    by simp
  then show ?thesis
    using assms m by (simp add: np_linspace_def)
qed

lemma sorted_wrt_map_upt:
  assumes "\<And>i j. i < j \<Longrightarrow> j < n \<Longrightarrow> f i < (f j :: real)"
  shows "sorted_wrt (<) (map f [0..<n])"
  using assms by (simp add: sorted_wrt_iff_nth_less)

lemma logspace_samples:
  assumes "0 < s" and "s < e" and "2 \<le> num"
  shows "np_logspace (log 10 s) (log 10 e) num =
           Inr (map (\<lambda>i. 10 powr (log 10 s + real i * ((log 10 e - log 10 s) / real (nat num - 1))))
                  [0..<nat num])"
  using assms by (simp add: np_logspace_def np_linspace_uniform comp_def)

lemma logspace_increasing:
  assumes "0 < s" and "s < e" and "2 \<le> num"
  shows "sorted_wrt (<)
           (map (\<lambda>i. 10 powr (log 10 s + real i * ((log 10 e - log 10 s) / real (nat num - 1))))
                  [0..<nat num])"
proof (rule sorted_wrt_map_upt)
  fix i j :: nat
  assume ij: "i < j" "j < nat num"
  have "log 10 s < log 10 e" using assms by simp
  moreover have "0 < real (nat num - 1)" using assms by simp
  ultimately have step: "0 < (log 10 e - log 10 s) / real (nat num - 1)" by simp
  have "real i * ((log 10 e - log 10 s) / real (nat num - 1))
          < real j * ((log 10 e - log 10 s) / real (nat num - 1))"
    using ij step by (intro mult_strict_right_mono) simp_all
  then show "10 powr (log 10 s + real i * ((log 10 e - log 10 s) / real (nat num - 1)))
           < 10 powr (log 10 s + real j * ((log 10 e - log 10 s) / real (nat num - 1)))"
    by simp
qed

text \<open>
  A single point: the list is \<open>[f_start]\<close>, so its last entry is not \<open>f_stop\<close>; a negative
  point count raises \<^verbatim>\<open>ValueError\<close>.
\<close>

theorem freq_list_single_point_counterexample:
  "freq_list \<lparr>f_start = 1, f_stop = 10, num_points = 1, scale = ''log'',
              num_averages = 3, gen_amplitude_vpp = 1\<rparr> = Inr [1]
   \<and> last [1 :: real] \<noteq> 10
   \<and> freq_list \<lparr>f_start = 1, f_stop = 10, num_points = - 1, scale = ''log'',
              num_averages = 3, gen_amplitude_vpp = 1\<rparr> = Inl ValueError"
  by (simp add: freq_list_def math_log10_def np_logspace_def np_linspace_def)

text \<open>
  Claim C7, as the code has it. For a logarithmic configuration with \<open>0 < f_start < f_stop\<close>
  and a point count that is not negative, the list has exactly \<open>num_points\<close> entries and is
  strictly increasing; its first entry is \<open>f_start\<close> when there is at least one point, and
  its last entry is \<open>f_stop\<close> when there are at least two. With a single point the list is
  \<open>[f_start]\<close>; a negative count makes \<^verbatim>\<open>numpy.logspace\<close> raise.
\<close>

theorem freq_list_log_endpoints:
  assumes "scale cfg = ''log''" and "0 < f_start cfg" and "f_start cfg < f_stop cfg"
    and "0 \<le> num_points cfg"
  shows "\<exists>fs. freq_list cfg = Inr fs
           \<and> int (length fs) = num_points cfg
           \<and> sorted_wrt (<) fs
           \<and> (1 \<le> num_points cfg \<longrightarrow> hd fs = f_start cfg)
           \<and> (2 \<le> num_points cfg \<longrightarrow> last fs = f_stop cfg)"
proof -
  have pos: "0 < f_stop cfg" using assms by simp
  have fl: "freq_list cfg = np_logspace (log 10 (f_start cfg)) (log 10 (f_stop cfg)) (num_points cfg)"
    using assms pos by (simp add: freq_list_def math_log10_def)
  show ?thesis
  proof (cases "2 \<le> num_points cfg")
    case True
    let ?f = "\<lambda>i. 10 powr (log 10 (f_start cfg) + real i *
                ((log 10 (f_stop cfg) - log 10 (f_start cfg)) / real (nat (num_points cfg) - 1)))"
    have eq: "freq_list cfg = Inr (map ?f [0..<nat (num_points cfg)])"
      using fl logspace_samples [OF assms(2,3) True] by simp
    have len: "int (length (map ?f [0..<nat (num_points cfg)])) = num_points cfg"
      using True by simp
    have inc: "sorted_wrt (<) (map ?f [0..<nat (num_points cfg)])"
      by (rule logspace_increasing [OF assms(2,3) True])
    have ne: "[0..<nat (num_points cfg)] \<noteq> []" using True by simp
    have first: "hd (map ?f [0..<nat (num_points cfg)]) = f_start cfg"
      using ne assms(2) by (simp add: hd_map)
    have n1: "real (nat (num_points cfg) - 1) \<noteq> 0" using True by simp
    have "last (map ?f [0..<nat (num_points cfg)]) = ?f (nat (num_points cfg) - 1)"
      using ne by (simp add: last_map)
    also have "\<dots> = 10 powr (log 10 (f_stop cfg))"
      using n1 by simp
    also have "\<dots> = f_stop cfg" using pos by simp
    finally have lst: "last (map ?f [0..<nat (num_points cfg)]) = f_stop cfg" .
    from eq len inc first lst show ?thesis by blast
  next
    case False
    then have small: "num_points cfg = 0 \<or> num_points cfg = 1" using assms(4) by auto
    then show ?thesis
      using fl assms(2) by (auto simp: np_logspace_def np_linspace_def)
  qed
qed

theorem freq_list_log_endpoints_witness:
  "\<exists>fs. freq_list \<lparr>f_start = 1000, f_stop = 10000, num_points = 3, scale = ''log'',
              num_averages = 2, gen_amplitude_vpp = 1\<rparr> = Inr fs
       \<and> int (length fs) = 3 \<and> sorted_wrt (<) fs \<and> hd fs = 1000 \<and> last fs = 10000"
  using freq_list_log_endpoints
          [of "\<lparr>f_start = 1000, f_stop = 10000, num_points = 3, scale = ''log'',
              num_averages = 2, gen_amplitude_vpp = 1\<rparr>"]
  by simp

subsection \<open>The spectrum analysis\<close>

lemma mean_axis0_nth:
  "k < N \<Longrightarrow> mean_axis0 xss ! k = (\<Sum>xs\<leftarrow>xss. xs ! k) / of_nat (length xss)"
  by (simp add: mean_axis0_def)

lemma length_mean_axis0: "length (mean_axis0 xss) = N"
  by (simp add: mean_axis0_def)

lemma average_spectrum_lengths:
  "length (fst (snd (average_spectrum ffts win sr))) = N div 2
   \<and> length (snd (snd (average_spectrum ffts win sr))) = N div 2
   \<and> length (fst (average_spectrum ffts win sr)) = N div 2"
  by (simp add: average_spectrum_def Let_def length_mean_axis0 N_def)

lemma average_spectrum_rms:
  assumes "k < N div 2"
  shows "fst (snd (average_spectrum ffts win sr)) ! k =
           (if k = 0 then cmod (mean_axis0 ffts ! 0) / sum_list win
            else (cmod (mean_axis0 ffts ! k) * 2 / sum_list win) / sqrt 2)"
proof -
  have kN: "k < N" using assms by simp
  have len: "k < length (take (N div 2) (mean_axis0 ffts))"
    using assms by (simp add: length_mean_axis0)
  show ?thesis
  proof (cases "k = 0")
    case True
    then show ?thesis
      using assms by (simp add: average_spectrum_def Let_def length_mean_axis0)
  next
    case False
    then show ?thesis
      using assms len by (simp add: average_spectrum_def Let_def length_mean_axis0)
  qed
qed

lemma average_spectrum_db:
  assumes "k < N div 2"
  shows "snd (snd (average_spectrum ffts win sr)) ! k =
           20 * log 10 (fst (snd (average_spectrum ffts win sr)) ! k + 1 / 10^12)"
  using assms by (simp add: average_spectrum_def Let_def length_mean_axis0)

text \<open>
  The zero-frequency bin: one spectrum whose bin 0 is 500, with the rectangular window
  (sum 500), has the RMS amplitude 1 in bin 0, where a peak amplitude over \<open>\<surd>2\<close> would be
  \<open>1 / \<surd>2\<close>.
\<close>

theorem dc_bin_rms_counterexample:
  "fst (snd (average_spectrum [500 # replicate 499 0] (np_ones N) 1)) ! 0 = 1
   \<and> spec_v_rms [500 # replicate 499 0] (np_ones N) 0 = 1 / sqrt 2
   \<and> 1 \<noteq> 1 / sqrt 2"
proof -
  have ws: "sum_list (np_ones N) = 500"
    by (simp add: np_ones_def N_def sum_list_replicate)
  have m0: "mean_axis0 [500 # replicate 499 0] ! 0 = 500"
    by (simp add: mean_axis0_nth N_def)
  have bin0: "0 < N div 2" by (simp add: N_def)
  have a: "fst (snd (average_spectrum [500 # replicate 499 0] (np_ones N) 1)) ! 0 = 1"
    using average_spectrum_rms [OF bin0, of "[500 # replicate 499 0]" "np_ones N" 1]
    by (simp add: ws m0)
  have b: "spec_v_rms [500 # replicate 499 0] (np_ones N) 0 = 1 / sqrt 2"
    by (simp add: spec_v_rms_def Let_def ws m0)
  have "sqrt 2 \<noteq> 1" by simp
  then have c: "1 \<noteq> 1 / sqrt 2" by simp
  from a b c show ?thesis by blast
qed

text \<open>
  Claim C8, as the code has it. For a non-empty collection of accepted spectra (each of
  \<open>N\<close> entries) the complex spectra are averaged entry by entry and the magnitude is taken
  afterwards; the result has the first \<open>N div 2\<close> bins. For a bin \<open>k > 0\<close> the RMS amplitude
  is the peak amplitude \<open>magnitude * 2 / window_sum\<close> over \<open>\<surd>2\<close>; for bin 0 the RMS
  amplitude is \<open>magnitude / window_sum\<close>, with no factor 2 and no division by \<open>\<surd>2\<close>;
  the dB value of every bin is \<open>20 * log10 (rms + 1e-12)\<close>.
\<close>

theorem average_spectrum_bins:
  assumes "all_complex_ffts \<noteq> []" and "\<forall>f\<in>set all_complex_ffts. length f = N"
    and "k < N div 2"
  shows "length (fst (snd (average_spectrum all_complex_ffts win sample_rate_hz))) = N div 2
       \<and> length (snd (snd (average_spectrum all_complex_ffts win sample_rate_hz))) = N div 2
       \<and> mean_axis0 all_complex_ffts ! k
           = (\<Sum>f\<leftarrow>all_complex_ffts. f ! k) / of_nat (length all_complex_ffts)
       \<and> fst (snd (average_spectrum all_complex_ffts win sample_rate_hz)) ! k
           = (if k = 0 then cmod (mean_axis0 all_complex_ffts ! 0) / sum_list win
              else (cmod (mean_axis0 all_complex_ffts ! k) * 2 / sum_list win) / sqrt 2)
       \<and> snd (snd (average_spectrum all_complex_ffts win sample_rate_hz)) ! k
           = 20 * log 10
               (fst (snd (average_spectrum all_complex_ffts win sample_rate_hz)) ! k + 1 / 10^12)"
proof -
  have kN: "k < N" using assms(3) by simp
  show ?thesis
    using average_spectrum_lengths [of all_complex_ffts win sample_rate_hz]
      mean_axis0_nth [OF kN, of all_complex_ffts]
      average_spectrum_rms [OF assms(3), of all_complex_ffts win sample_rate_hz]
      average_spectrum_db [OF assms(3), of all_complex_ffts win sample_rate_hz]
    by simp
qed

theorem average_spectrum_bins_witness:
  "fst (snd (average_spectrum [replicate 500 1000, replicate 500 0] (np_ones N) 1)) ! 1
     = 2 / sqrt 2
   \<and> fst (snd (average_spectrum [replicate 500 1000, replicate 500 0] (np_ones N) 1)) ! 0 = 1
   \<and> length (fst (snd (average_spectrum [replicate 500 1000, replicate 500 0] (np_ones N) 1)))
       = 250"
proof -
  let ?ffts = "[replicate 500 1000, replicate 500 0] :: complex list list"
  have h1: "?ffts \<noteq> []" by simp
  have h2: "\<forall>f\<in>set ?ffts. length f = N" by (simp add: N_def)
  have k0: "0 < N div 2" and k1: "1 < N div 2" by (simp_all add: N_def)
  have ws: "sum_list (np_ones N) = 500"
    by (simp add: np_ones_def N_def sum_list_replicate)
  have m0: "mean_axis0 ?ffts ! 0 = 500" and m1: "mean_axis0 ?ffts ! 1 = 500"
    by (simp_all add: mean_axis0_nth N_def)
  have n2: "N div 2 = 250" by (simp add: N_def)
  have "fst (snd (average_spectrum ?ffts (np_ones N) 1)) ! 1 = 2 / sqrt 2"
    using average_spectrum_bins [OF h1 h2 k1, of "np_ones N" 1] by (simp add: ws m1)
  moreover have "fst (snd (average_spectrum ?ffts (np_ones N) 1)) ! 0 = 1"
    using average_spectrum_bins [OF h1 h2 k0, of "np_ones N" 1] by (simp add: ws m0)
  moreover have "length (fst (snd (average_spectrum ?ffts (np_ones N) 1))) = 250"
    using average_spectrum_bins [OF h1 h2 k0, of "np_ones N" 1] by (simp add: n2)
  ultimately show ?thesis by simp
qed

lemma best_timebase_100:
  "get_best_timebase 100 = Inr (''1ms'', nearest (1 / 10^3))"
proof -
  have "nearest (100 * 10) = of_int 8796093022208000 / 2 ^ (52 - 9)"
    by (rule nearest_big_eqI) simp_all
  then have "nearest (100 * 10) = 1000" by simp
  then have a: "fl (100 * 10) = Finite (1000)"
    by (simp add: fl_small)
  have "nearest (1 / 1000) = of_int 4611686018427388 / 2 ^ (10 + 52)"
    by (rule nearest_small_eqI) simp_all
  then have "nearest (1 / 1000) = 1152921504606847 / 2 ^ 60" by simp
  then have b: "fl (1 / 1000) = Finite (1152921504606847 / 2 ^ 60)"
    by (simp add: fl_small)
  have nz: "(1000::real) \<noteq> 0" by simp
  have r: "py_recip (py_mul (Finite 100) 10) = Inr (Finite (1152921504606847 / 2 ^ 60))"
    by (simp only: py_mul_def py_recip_def pyfloat.case a b nz if_False)
  have ff: "first_fit (Finite (1152921504606847 / 2 ^ 60)) VALID_TIMEBASES = Some (1152921504606847 / 2 ^ 60)"
    unfolding VALID_TIMEBASES_list timebase_key_values by (simp add: py_ge_def)
  have dg: "dict_get VDS_TIMEBASE_MAP (1152921504606847 / 2 ^ 60) = Inr ''1ms''"
    unfolding VDS_TIMEBASE_MAP_def timebase_keys by (simp add: dict_get_def)
  have "get_best_timebase 100 = Inr (''1ms'', 1152921504606847 / 2 ^ 60)"
    by (simp only: get_best_timebase_def r ff dg option.case sum.case)
  then show ?thesis by (simp only: timebase_key_1ms)
qed

lemma quiet_step:
  assumes "sp_up st" and "quiet_rep re"
  shows "\<exists>st'. spectrum_step cfg re v st = (st', None) \<and> sp_up st'
           \<and> (spectra st' = [] \<longleftrightarrow> spectra st = [] \<and> \<not> accepted (adc re))
           \<and> (\<exists>cs. sp_commands st' = sp_commands st @ cs)"
proof (cases "adc re")
  case (AdcBytes raw_data)
  show ?thesis
  proof (cases "500 \<le> length raw_data")
    case True
    then have "raw_data \<noteq> []" by auto
    then show ?thesis
      using assms AdcBytes True
      by (simp add: spectrum_step_def scope_send_def get_adc_data_def quiet_rep_def N_def)
  next
    case False
    then show ?thesis
      using assms AdcBytes
      by (simp add: spectrum_step_def scope_send_def get_adc_data_def quiet_rep_def)
  qed
next
  case AdcTimeout
  then show ?thesis
    using assms by (simp add: spectrum_step_def scope_send_def get_adc_data_def quiet_rep_def)
next
  case AdcBroken
  then show ?thesis using assms(2) by (simp add: quiet_rep_def)
qed

lemma quiet_loop:
  assumes "sp_up st" and "\<forall>i\<in>set is. quiet_rep (env i)"
  shows "\<exists>st'. spectrum_loop cfg env v is st = (st', None) \<and> sp_up st'
           \<and> (spectra st' = [] \<longleftrightarrow> spectra st = [] \<and> (\<forall>i\<in>set is. \<not> accepted (adc (env i))))"
  using assms
proof (induction "is" arbitrary: st)
  case Nil
  then show ?case by simp
next
  case (Cons i rest)
  from quiet_step [of st "env i" cfg v] Cons.prems obtain st1 where s1:
    "spectrum_step cfg (env i) v st = (st1, None)" "sp_up st1"
    "spectra st1 = [] \<longleftrightarrow> spectra st = [] \<and> \<not> accepted (adc (env i))"
    by auto
  from Cons.IH [OF s1(2)] Cons.prems(2) obtain st' where s2:
    "spectrum_loop cfg env v rest st1 = (st', None)" "sp_up st'"
    "spectra st' = [] \<longleftrightarrow> spectra st1 = [] \<and> (\<forall>i\<in>set rest. \<not> accepted (adc (env i)))"
    by auto
  have "spectrum_loop cfg env v (i # rest) st = (st', None)"
    using s1(1) s2(1) by simp
  with s1(3) s2(2,3) show ?case by auto
qed

lemma returns_after_loop:
  assumes "get_best_timebase (resolution_hz cfg) = Inr (t_base_str, t_base_sec)"
    and "interrupted env \<noteq> AtPrompt" and "\<not> scale_write_fails env" and "readback env \<noteq> None"
    and "\<not> final_run_write_fails env"
    and "run_spectrum_analysis cfg env = (Inr res, cmds)"
  shows "cmds \<noteq> [] \<and> last cmds = ScopeRun"
  using assms
  unfolding run_spectrum_analysis_def scope_send_def Let_def
  by (auto split: sum.splits option.splits prod.splits if_splits)

lemma quiet_run:
  assumes "get_best_timebase (resolution_hz cfg) = Inr (t_base_str, t_base_sec)"
    and "interrupted env = Uninterrupted" and "link_up env" and "\<not> first_stop_write_fails env"
    and "\<not> scale_write_fails env" and "readback env \<noteq> None"
    and "\<not> final_run_write_fails env"
    and "\<forall>i<nat (sp_num_averages cfg). quiet_rep (reps env i)"
  shows "\<exists>res cmds. run_spectrum_analysis cfg env = (Inr res, cmds) \<and> last cmds = ScopeRun
           \<and> (res = None \<longleftrightarrow>
                (\<forall>i<nat (sp_num_averages cfg). \<not> accepted (adc (reps env i))))"
proof -
  obtain v_div_val probe_val where rb: "readback env = Some (v_div_val, probe_val)"
    using assms(6) by auto
  let ?st2 = "\<lparr>sp_up = True, sp_commands = [ScopeStop, ScopeTimebaseScale t_base_str],
              spectra = []\<rparr>"
  let ?v = "(8 * v_div_val * real_of_int probe_val) / 255"
  have q: "\<forall>i\<in>set [0..<nat (sp_num_averages cfg)]. quiet_rep (reps env i)"
    using assms(8) by simp
  from quiet_loop [of ?st2 "[0..<nat (sp_num_averages cfg)]" "reps env" cfg ?v] q
  obtain st3 where l: "spectrum_loop cfg (reps env) ?v [0..<nat (sp_num_averages cfg)] ?st2
                        = (st3, None)" "sp_up st3"
      "spectra st3 = []
         \<longleftrightarrow> (\<forall>i\<in>set [0..<nat (sp_num_averages cfg)]. \<not> accepted (adc (reps env i)))"
    by auto
  have none: "spectra st3 = []
                \<longleftrightarrow> (\<forall>i<nat (sp_num_averages cfg). \<not> accepted (adc (reps env i)))"
    using l(3) by auto
  show ?thesis
  proof (cases "spectra st3 = []")
    case True
    then have "run_spectrum_analysis cfg env = (Inr None, sp_commands st3 @ [ScopeRun])"
      using assms(1-5,7) rb l(1,2)
      by (simp add: run_spectrum_analysis_def scope_send_def Let_def)
    then show ?thesis using none True
      by (intro exI [of _ None] exI [of _ "sp_commands st3 @ [ScopeRun]"]) simp
  next
    case False
    then have "run_spectrum_analysis cfg env =
        (Inr (Some (average_spectrum (spectra st3) (fft_window cfg)
                      (real N / (t_base_sec * 10)))),
         sp_commands st3 @ [ScopeRun])"
      using assms(1-5,7) rb l(1,2)
      by (simp add: run_spectrum_analysis_def scope_send_def Let_def)
    then show ?thesis using none False
      by (intro exI [of _ "Some (average_spectrum (spectra st3) (fft_window cfg)
                                   (real N / (t_base_sec * 10)))"]
            exI [of _ "sp_commands st3 @ [ScopeRun]"]) simp
  qed
qed

text \<open>
  Four exits without \<^verbatim>\<open>RUN\<close> as the last command. An interrupt at the prompt returns
  before any command is sent. A failed read-back of the vertical scale returns after
  \<^verbatim>\<open>STOP\<close> and the timebase command. An interrupt in the wait after the \<^verbatim>\<open>*STOP\<close> of a
  repetition leaves the function with the oscilloscope stopped. A query \<^verbatim>\<open>*ADC?\<close> that
  fails closes the link, the repetition is skipped, and the \<^verbatim>\<open>*RUN\<close> after the loop raises
  \<^verbatim>\<open>ConnectionError\<close> without reaching the oscilloscope.
\<close>

theorem run_spectrum_analysis_no_run_counterexample:
  "run_spectrum_analysis
     \<lparr>resolution_hz = 100, sp_num_averages = 1, channel = 1, window = ''HANNING''\<rparr>
     \<lparr>link_up = True, interrupted = AtPrompt, first_stop_write_fails = False,
      scale_write_fails = False, readback = Some (1, 1),
      reps = (\<lambda>i. \<lparr>run_write_fails = False, stop_write_fails_rep = False,
                    rep_interrupt = RepQuiet, adc = AdcTimeout\<rparr>),
      final_run_write_fails = False\<rparr>
     = (Inr None, [])
   \<and> run_spectrum_analysis
     \<lparr>resolution_hz = 100, sp_num_averages = 1, channel = 1, window = ''HANNING''\<rparr>
     \<lparr>link_up = True, interrupted = Uninterrupted, first_stop_write_fails = False,
      scale_write_fails = False, readback = None,
      reps = (\<lambda>i. \<lparr>run_write_fails = False, stop_write_fails_rep = False,
                    rep_interrupt = RepQuiet, adc = AdcTimeout\<rparr>),
      final_run_write_fails = False\<rparr>
     = (Inr None, [ScopeStop, ScopeTimebaseScale ''1ms''])
   \<and> run_spectrum_analysis
     \<lparr>resolution_hz = 100, sp_num_averages = 1, channel = 1, window = ''HANNING''\<rparr>
     \<lparr>link_up = True, interrupted = Uninterrupted, first_stop_write_fails = False,
      scale_write_fails = False, readback = Some (1, 1),
      reps = (\<lambda>i. \<lparr>run_write_fails = False, stop_write_fails_rep = False,
                    rep_interrupt = RepAfterStop, adc = AdcTimeout\<rparr>),
      final_run_write_fails = False\<rparr>
     = (Inl KeyboardInterrupt, [ScopeStop, ScopeTimebaseScale ''1ms'', ScopeRun, ScopeStop])
   \<and> run_spectrum_analysis
     \<lparr>resolution_hz = 100, sp_num_averages = 1, channel = 1, window = ''HANNING''\<rparr>
     \<lparr>link_up = True, interrupted = Uninterrupted, first_stop_write_fails = False,
      scale_write_fails = False, readback = Some (1, 1),
      reps = (\<lambda>i. \<lparr>run_write_fails = False, stop_write_fails_rep = False,
                    rep_interrupt = RepQuiet, adc = AdcBroken\<rparr>),
      final_run_write_fails = False\<rparr>
     = (Inl ConnectionError, [ScopeStop, ScopeTimebaseScale ''1ms'', ScopeRun, ScopeStop])"
  by (simp add: run_spectrum_analysis_def best_timebase_100 scope_send_def spectrum_step_def
      get_adc_data_def)

text \<open>
  Claim C9, as the code has it. The timebase is chosen without an exception. When the
  operator interrupts the prompt the function returns without having sent any command, so
  the oscilloscope stays as it was. When the repetition loop is reached (the prompt is
  confirmed, the timebase is written, the vertical scale and the probe attenuation are read
  back) and the last write does not fail, every return of the function, with a spectrum or
  with no accepted repetition, has \<^verbatim>\<open>RUN\<close> as the last command that reached the
  oscilloscope. The function does return in this way when the link is up, the operator
  does not interrupt and nothing goes wrong in the repetitions (the writes succeed and the
  queries do not break the link); it returns no spectrum exactly when no answer to
  \<^verbatim>\<open>*ADC?\<close> has 500 bytes. Exits by an exception are not part of the statement.
\<close>

theorem run_spectrum_analysis_leaves_running:
  assumes "get_best_timebase (resolution_hz cfg) = Inr (t_base_str, t_base_sec)"
  shows "(interrupted env = AtPrompt \<longrightarrow> run_spectrum_analysis cfg env = (Inr None, []))
       \<and> (interrupted env \<noteq> AtPrompt \<and> \<not> scale_write_fails env \<and> readback env \<noteq> None
            \<and> \<not> final_run_write_fails env \<longrightarrow>
            (\<forall>res cmds. run_spectrum_analysis cfg env = (Inr res, cmds) \<longrightarrow>
               cmds \<noteq> [] \<and> last cmds = ScopeRun))
       \<and> (interrupted env = Uninterrupted \<and> link_up env \<and> \<not> first_stop_write_fails env
            \<and> \<not> scale_write_fails env \<and> readback env \<noteq> None
            \<and> \<not> final_run_write_fails env
            \<and> (\<forall>i<nat (sp_num_averages cfg). quiet_rep (reps env i)) \<longrightarrow>
            (\<exists>res cmds. run_spectrum_analysis cfg env = (Inr res, cmds)
               \<and> last cmds = ScopeRun
               \<and> (res = None \<longleftrightarrow>
                    (\<forall>i<nat (sp_num_averages cfg). \<not> accepted (adc (reps env i))))))"
proof -
  have A: "run_spectrum_analysis cfg env = (Inr None, [])" if "interrupted env = AtPrompt"
    using that assms by (simp add: run_spectrum_analysis_def)
  have B: "\<forall>res cmds. run_spectrum_analysis cfg env = (Inr res, cmds) \<longrightarrow>
               cmds \<noteq> [] \<and> last cmds = ScopeRun"
    if "interrupted env \<noteq> AtPrompt \<and> \<not> scale_write_fails env \<and> readback env \<noteq> None
            \<and> \<not> final_run_write_fails env"
    using that returns_after_loop [OF assms] by blast
  have C: "\<exists>res cmds. run_spectrum_analysis cfg env = (Inr res, cmds)
               \<and> last cmds = ScopeRun
               \<and> (res = None \<longleftrightarrow>
                    (\<forall>i<nat (sp_num_averages cfg). \<not> accepted (adc (reps env i))))"
    if "interrupted env = Uninterrupted \<and> link_up env \<and> \<not> first_stop_write_fails env
            \<and> \<not> scale_write_fails env \<and> readback env \<noteq> None
            \<and> \<not> final_run_write_fails env
            \<and> (\<forall>i<nat (sp_num_averages cfg). quiet_rep (reps env i))"
    using that quiet_run [OF assms] by blast
  from A B C show ?thesis by blast
qed

theorem run_spectrum_analysis_leaves_running_witness:
  "run_spectrum_analysis
     \<lparr>resolution_hz = 100, sp_num_averages = 2, channel = 1, window = ''HANNING''\<rparr>
     \<lparr>link_up = True, interrupted = AtPrompt, first_stop_write_fails = False,
      scale_write_fails = False, readback = Some (1, 1),
      reps = (\<lambda>i. \<lparr>run_write_fails = False, stop_write_fails_rep = False,
                    rep_interrupt = RepQuiet, adc = AdcTimeout\<rparr>),
      final_run_write_fails = False\<rparr>
     = (Inr None, [])
   \<and> (\<exists>res cmds. run_spectrum_analysis
     \<lparr>resolution_hz = 100, sp_num_averages = 2, channel = 1, window = ''HANNING''\<rparr>
     \<lparr>link_up = True, interrupted = Uninterrupted, first_stop_write_fails = False,
      scale_write_fails = False, readback = Some (1, 1),
      reps = (\<lambda>i. \<lparr>run_write_fails = False, stop_write_fails_rep = False,
                    rep_interrupt = RepQuiet, adc = AdcBytes (replicate 500 128)\<rparr>),
      final_run_write_fails = False\<rparr> = (Inr res, cmds)
       \<and> last cmds = ScopeRun \<and> res \<noteq> None)"
proof -
  let ?cfg = "\<lparr>resolution_hz = 100, sp_num_averages = 2, channel = 1, window = ''HANNING''\<rparr>"
  have tb: "get_best_timebase (resolution_hz ?cfg) = Inr (''1ms'', nearest (1 / 10^3))"
    by (simp add: best_timebase_100)
  note t = run_spectrum_analysis_leaves_running [OF tb]
  have a: "run_spectrum_analysis ?cfg
     \<lparr>link_up = True, interrupted = AtPrompt, first_stop_write_fails = False,
      scale_write_fails = False, readback = Some (1, 1),
      reps = (\<lambda>i. \<lparr>run_write_fails = False, stop_write_fails_rep = False,
                    rep_interrupt = RepQuiet, adc = AdcTimeout\<rparr>),
      final_run_write_fails = False\<rparr> = (Inr None, [])"
    using t [of "\<lparr>link_up = True, interrupted = AtPrompt, first_stop_write_fails = False,
      scale_write_fails = False, readback = Some (1, 1),
      reps = (\<lambda>i. \<lparr>run_write_fails = False, stop_write_fails_rep = False,
                    rep_interrupt = RepQuiet, adc = AdcTimeout\<rparr>),
      final_run_write_fails = False\<rparr>"]
    by simp
  let ?env = "\<lparr>link_up = True, interrupted = Uninterrupted, first_stop_write_fails = False,
      scale_write_fails = False, readback = Some (1, 1),
      reps = (\<lambda>i. \<lparr>run_write_fails = False, stop_write_fails_rep = False,
                    rep_interrupt = RepQuiet, adc = AdcBytes (replicate 500 128)\<rparr>),
      final_run_write_fails = False\<rparr>"
  have q: "\<forall>i<nat (sp_num_averages ?cfg). quiet_rep (reps ?env i)"
    by (simp add: quiet_rep_def)
  have "\<exists>i<nat (sp_num_averages ?cfg). accepted (adc (reps ?env i))"
    by (intro exI [of _ 0]) simp
  then have nn: "\<not> (\<forall>i<nat (sp_num_averages ?cfg). \<not> accepted (adc (reps ?env i)))"
    by blast
  from t [of ?env] q obtain res cmds where r:
    "run_spectrum_analysis ?cfg ?env = (Inr res, cmds)" "last cmds = ScopeRun"
    "res = None \<longleftrightarrow> (\<forall>i<nat (sp_num_averages ?cfg). \<not> accepted (adc (reps ?env i)))"
    by auto
  from r(3) nn have "res \<noteq> None" by blast
  with r(1,2) have b: "\<exists>res cmds. run_spectrum_analysis ?cfg ?env = (Inr res, cmds)
       \<and> last cmds = ScopeRun \<and> res \<noteq> None"
    by blast
  from a b show ?thesis by blast
qed

subsection \<open>The Bode sweep\<close>












end
